theory Spec2Isabelle
  imports Main "HOL-Library.AList" "HOL-Library.Multiset"
begin

section \<open>Strings\<close>

text \<open>
  A JavaScript string is modelled as a \<^typ>\<open>string\<close>, one \<^typ>\<open>char\<close> per code unit;
  code units above \<open>0xFF\<close> are outside the model.  JavaScript numbers that count
  files, lines and commits are modelled as \<^typ>\<open>nat\<close> (the counts of a run stay far
  below \<open>2 ^ 53\<close>, where the arithmetic of doubles is exact).
\<close>

definition TAB :: char where
  "TAB = CHR 0x09"

definition NL :: char where
  "NL = CHR 0x0A"

text \<open>\<open>s.split(sep)\<close> for a one-character separator: never the empty list.\<close>

fun split :: "char \<Rightarrow> string \<Rightarrow> string list" where
  "split sep [] = [[]]"
| "split sep (c # cs) =
     (if c = sep then [] # split sep cs
      else (case split sep cs of
              [] \<Rightarrow> [[c]]
            | w # ws \<Rightarrow> (c # w) # ws))"

text \<open>\<open>parts.join(sep)\<close> for a one-character separator.\<close>

fun join :: "char \<Rightarrow> string list \<Rightarrow> string" where
  "join sep [] = []"
| "join sep [p] = p"
| "join sep (p # q # ps) = p @ sep # join sep (q # ps)"

text \<open>
  The characters \<open>String.prototype.trim\<close> removes, among the code units of the model:
  tab, line feed, vertical tab, form feed, carriage return, space, no-break space.
\<close>

definition isWhiteSpace :: "char \<Rightarrow> bool" where
  "isWhiteSpace c \<longleftrightarrow>
     c \<in> set [CHR 0x09, CHR 0x0A, CHR 0x0B, CHR 0x0C, CHR 0x0D, CHR 0x20, CHR 0xA0]"

definition trim :: "string \<Rightarrow> string" where
  "trim s = rev (dropWhile isWhiteSpace (rev (dropWhile isWhiteSpace s)))"

text \<open>\<open>output.split('\n').filter(line => line.trim() !== '')\<close>\<close>

definition nonBlankLines :: "string \<Rightarrow> string list" where
  "nonBlankLines output = filter (\<lambda>line. trim line \<noteq> []) (split NL output)"

section \<open>The change classifier: parsing\<close>

text \<open>
  The source tags a file change with one of six fixed strings (the words for
  added, modified, deleted, renamed, copied and unknown); they are the
  constructors of \<open>changeType\<close>.
\<close>

datatype changeType = Added | Modified | Deleted | Renamed | Copied | Unknown

record fileChange =
  path :: string
  type :: changeType
  status :: string

text \<open>
  \<open>parseFirstCommitFiles\<close>: the tree listing of a root commit.  The path is the
  second tab-separated field of the line (\<open>parts[1]\<close>), or empty when the line
  has no tab.
\<close>

definition firstCommitLine :: "string \<Rightarrow> fileChange" where
  "firstCommitLine line =
     (let parts = split TAB line;
          filePath = (if length parts > 1 then parts ! 1 else [])
      in \<lparr>path = filePath, type = Added, status = ''A''\<rparr>)"

definition parseFirstCommitFiles :: "string \<Rightarrow> fileChange list" where
  "parseFirstCommitFiles output = map firstCommitLine (nonBlankLines output)"

text \<open>
  \<open>parseGitDiff\<close>: the name-status diff of a commit against its parent.
  \<open>[status, ...fileParts] = line.split('\t')\<close>, the path is
  \<open>fileParts.join('\t')\<close>, and the change type is chosen by \<open>status.charAt(0)\<close>.
\<close>

definition changeTypeOf :: "string \<Rightarrow> changeType" where
  "changeTypeOf st =
     (case st of
        [] \<Rightarrow> Unknown
      | c # _ \<Rightarrow>
          if c = CHR ''A'' then Added
          else if c = CHR ''M'' then Modified
          else if c = CHR ''D'' then Deleted
          else if c = CHR ''R'' then Renamed
          else if c = CHR ''C'' then Copied
          else Unknown)"

definition gitDiffLine :: "string \<Rightarrow> fileChange" where
  "gitDiffLine line =
     (case split TAB line of
        [] \<Rightarrow> \<lparr>path = [], type = Unknown, status = []\<rparr>
      | st # fileParts \<Rightarrow>
          \<lparr>path = join TAB fileParts, type = changeTypeOf st, status = st\<rparr>)"

definition parseGitDiff :: "string \<Rightarrow> fileChange list" where
  "parseGitDiff diffOutput = map gitDiffLine (nonBlankLines diffOutput)"


section \<open>Numbers in strings\<close>

definition isDigit :: "char \<Rightarrow> bool" where
  "isDigit c \<longleftrightarrow> c \<in> set ''0123456789''"

definition digitVal :: "char \<Rightarrow> nat" where
  "digitVal c = of_char c - 48"

text \<open>\<open>parseInt(s, 10)\<close> on a string of decimal digits.\<close>

definition parseNat :: "string \<Rightarrow> nat" where
  "parseNat s = foldl (\<lambda>n c. 10 * n + digitVal c) 0 s"

text \<open>\<open>String(n)\<close> for a natural number.\<close>

fun showNat :: "nat \<Rightarrow> string" where
  "showNat n =
     (if n < 10 then [''0123456789'' ! n]
      else showNat (n div 10) @ [''0123456789'' ! (n mod 10)])"

declare showNat.simps [simp del]

section \<open>The stat line of a root commit\<close>

text \<open>
  The root branch reads its line counts from the text of \<open>git show --stat\<close> with
  the regular expression

  \<^verbatim>\<open>(\d+) files? changed(?:, (\d+) insertions?\(\+\))?(?:, (\d+) deletions?\(-\))?\<close>

  \<open>statMatch\<close> is \<open>show.match(...)\<close>: the leftmost match, with its three groups.
  No alternative of the expression can succeed after its greedy choice failed
  (a shorter run of digits is followed by a digit, a skipped \<open>s\<close> by an \<open>s\<close>), so
  the matcher does not backtrack.
\<close>

fun stripPrefix :: "string \<Rightarrow> string \<Rightarrow> string option" where
  "stripPrefix [] s = Some s"
| "stripPrefix (p # ps) [] = None"
| "stripPrefix (p # ps) (c # cs) = (if p = c then stripPrefix ps cs else None)"

definition optionalS :: "string \<Rightarrow> string" where
  "optionalS s = (case s of c # cs \<Rightarrow> if c = CHR ''s'' then cs else s | [] \<Rightarrow> s)"

text \<open>\<open>(\d+) WORDs?TAIL\<close> at the head of \<open>s\<close>: the digits and what follows the match.\<close>

definition countedWord :: "string \<Rightarrow> string \<Rightarrow> string \<Rightarrow> (string \<times> string) option" where
  "countedWord word tail s =
     (let ds = takeWhile isDigit s; r = dropWhile isDigit s
      in if ds = [] then None
         else (case stripPrefix (CHR '' '' # word) r of
                 None \<Rightarrow> None
               | Some r1 \<Rightarrow>
                   (case stripPrefix tail (optionalS r1) of
                      None \<Rightarrow> None
                    | Some r2 \<Rightarrow> Some (ds, r2))))"

text \<open>An optional group \<open>(?:, (\d+) WORDs?TAIL)?\<close>: its capture and what follows.\<close>

definition optionalGroup :: "string \<Rightarrow> string \<Rightarrow> string \<Rightarrow> string option \<times> string" where
  "optionalGroup word tail s =
     (case stripPrefix '', '' s of
        None \<Rightarrow> (None, s)
      | Some r \<Rightarrow>
          (case countedWord word tail r of
             None \<Rightarrow> (None, s)
           | Some (ds, r1) \<Rightarrow> (Some ds, r1)))"

definition statMatchHere :: "string \<Rightarrow> (string \<times> string option \<times> string option) option" where
  "statMatchHere s =
     (case countedWord ''file'' '' changed'' s of
        None \<Rightarrow> None
      | Some (files, r) \<Rightarrow>
          (let (ins, r1) = optionalGroup ''insertion'' ''(+)'' r;
               (del, r2) = optionalGroup ''deletion'' ''(-)'' r1
           in Some (files, ins, del)))"

fun statMatch :: "string \<Rightarrow> (string \<times> string option \<times> string option) option" where
  "statMatch [] = None"
| "statMatch (c # cs) =
     (case statMatchHere (c # cs) of
        Some m \<Rightarrow> Some m
      | None \<Rightarrow> statMatch cs)"

text \<open>\<open>parseInt(group || 0, 10)\<close>\<close>

definition parseIntOr0 :: "string option \<Rightarrow> nat" where
  "parseIntOr0 g = (case g of None \<Rightarrow> 0 | Some ds \<Rightarrow> parseNat ds)"

section \<open>Objects, arrays and lodash\<close>

text \<open>
  A plain JavaScript object used as a dictionary is an association list of its
  own properties in creation order: \<open>obj[k]\<close> is \<^term>\<open>map_of obj k\<close>,
  \<open>obj[k] = v\<close> is \<^term>\<open>AList.update k v obj\<close> (in place for an existing key, at
  the end for a new one).  Keys that name a property inherited from
  \<open>Object.prototype\<close> are outside the model.

  \<open>Object.entries\<close> lists the own properties in the order of the language: first
  the keys that are array indices (the canonical decimal strings of the numbers
  below \<open>2 ^ 32 - 1\<close>) in ascending numeric order, then the other keys in creation
  order.
\<close>

definition isArrayIndex :: "string \<Rightarrow> bool" where
  "isArrayIndex k \<longleftrightarrow> showNat (parseNat k) = k \<and> parseNat k < 4294967295"

definition objectEntries :: "(string \<times> 'v) list \<Rightarrow> (string \<times> 'v) list" where
  "objectEntries obj =
     sort_key (\<lambda>e. parseNat (fst e)) (filter (\<lambda>e. isArrayIndex (fst e)) obj)
     @ filter (\<lambda>e. \<not> isArrayIndex (fst e)) obj"

text \<open>\<open>x || 0\<close> for a count read from an object.\<close>

definition orZero :: "nat option \<Rightarrow> nat" where
  "orZero v = (case v of None \<Rightarrow> 0 | Some n \<Rightarrow> n)"

text \<open>
  \<open>Array.prototype.sort(cmp)\<close> is stable; for a comparator that orders by a key
  it is the stable insertion sort: an element goes before the first one that
  the comparator does not put before it.
\<close>

fun insertCmp :: "('a \<Rightarrow> 'a \<Rightarrow> int) \<Rightarrow> 'a \<Rightarrow> 'a list \<Rightarrow> 'a list" where
  "insertCmp cmp x [] = [x]"
| "insertCmp cmp x (y # ys) =
     (if cmp x y \<le> 0 then x # y # ys else y # insertCmp cmp x ys)"

definition sortCmp :: "('a \<Rightarrow> 'a \<Rightarrow> int) \<Rightarrow> 'a list \<Rightarrow> 'a list" where
  "sortCmp cmp xs = foldr (insertCmp cmp) xs []"

text \<open>\<open>_.uniqBy(xs, f)\<close>: the first element of every key, in order.\<close>

fun uniqByFrom :: "('a \<Rightarrow> 'k) \<Rightarrow> 'k list \<Rightarrow> 'a list \<Rightarrow> 'a list" where
  "uniqByFrom f seen [] = []"
| "uniqByFrom f seen (x # xs) =
     (if f x \<in> set seen then uniqByFrom f seen xs
      else x # uniqByFrom f (f x # seen) xs)"

definition uniqBy :: "('a \<Rightarrow> 'k) \<Rightarrow> 'a list \<Rightarrow> 'a list" where
  "uniqBy f xs = uniqByFrom f [] xs"

text \<open>\<open>_.countBy(xs, f)\<close>: an object from the keys to their numbers of elements.\<close>

definition countStep :: "('a \<Rightarrow> string) \<Rightarrow> (string \<times> nat) list \<Rightarrow> 'a \<Rightarrow> (string \<times> nat) list" where
  "countStep f result v =
     (case map_of result (f v) of
        Some n \<Rightarrow> AList.update (f v) (n + 1) result
      | None \<Rightarrow> AList.update (f v) 1 result)"

definition countBy :: "('a \<Rightarrow> string) \<Rightarrow> 'a list \<Rightarrow> (string \<times> nat) list" where
  "countBy f xs = foldl (countStep f) [] xs"

text \<open>\<open>xs.findIndex(p)\<close>: the first index whose element satisfies \<open>p\<close>, or \<open>-1\<close>.\<close>

fun findIndexFrom :: "int \<Rightarrow> ('a \<Rightarrow> bool) \<Rightarrow> 'a list \<Rightarrow> int" where
  "findIndexFrom i p [] = -1"
| "findIndexFrom i p (x # xs) = (if p x then i else findIndexFrom (i + 1) p xs)"

definition findIndex :: "('a \<Rightarrow> bool) \<Rightarrow> 'a list \<Rightarrow> int" where
  "findIndex p xs = findIndexFrom 0 p xs"

section \<open>Configuration, platform and repository\<close>

record config =
  includeCodeAnalysis :: bool
  ignoreFileTypes :: "string list"

text \<open>
  What the program takes from Node and from the clock: \<open>path.extname\<close>,
  \<open>path.basename\<close>, \<open>String.prototype.toLowerCase\<close>, the date formatter and the
  two ends of the reporting window (\<open>getReportStartDate()\<close>,
  \<open>getReportEndDate()\<close>).  Instants are integers.
\<close>

record platform =
  extname :: "string \<Rightarrow> string"
  basename :: "string \<Rightarrow> string"
  toLowerCase :: "string \<Rightarrow> string"
  formatDate :: "int \<Rightarrow> string"
  getReportStartDate :: int
  getReportEndDate :: int

definition isDateInReportRange :: "platform \<Rightarrow> int \<Rightarrow> bool" where
  "isDateInReportRange pf d \<longleftrightarrow> getReportStartDate pf \<le> d \<and> d \<le> getReportEndDate pf"

datatype gitError = GitError string

text \<open>An entry of \<open>git.log().all\<close>.\<close>

record logEntry =
  le_hash :: string
  le_date :: int
  le_message :: string
  le_author_name :: string
  le_author_email :: string

text \<open>The result of \<open>git.diffSummary\<close>.\<close>

record diffStat =
  insertions :: nat
  stat_deletions :: nat

text \<open>
  A repository handle (\<open>simpleGit(repoPath)\<close>): the answer of every query the
  program sends, an error (\<open>Inl\<close>) where the query throws.  The two queries the
  program sends twice have one field per call: \<open>rev-parse HEAD\<close> is sent by
  \<open>getRepositoryInfo\<close> (\<open>revParseHead\<close>) and by \<open>getCommitsInDateRange\<close>
  (\<open>revParseHeadAgain\<close>); the diff summary of a non-root commit is sent for the
  line totals (\<open>diffSummary\<close>) and again for the author's totals
  (\<open>diffSummaryAgain\<close>).
\<close>

record git =
  revParseHead :: "gitError + string"
  revParseHeadAgain :: "gitError + string"
  symbolicRefHead :: "gitError + string"
  getRemotes :: "gitError + string list"
  branch :: "gitError + string"
  logLatest :: "gitError + int option"
  log :: "gitError + logEntry list"
  lsTree :: "string \<Rightarrow> gitError + string"
  showStat :: "string \<Rightarrow> gitError + string"
  diffSummary :: "string \<Rightarrow> gitError + diffStat"
  diffNameStatus :: "string \<Rightarrow> gitError + string"
  diffSummaryAgain :: "string \<Rightarrow> gitError + diffStat"

section \<open>The commit history reader\<close>

record commit =
  hash :: string
  date :: string
  message :: string
  author :: string
  email :: string
  isFirstCommit :: bool

text \<open>\<open>hasAnyCommits\<close>, on the answer of \<open>rev-parse HEAD\<close>.\<close>

definition hasAnyCommits :: "gitError + string \<Rightarrow> bool" where
  "hasAnyCommits answer =
     (case answer of
        Inl e \<Rightarrow> False
      | Inr result \<Rightarrow> result \<noteq> [] \<and> trim result \<noteq> [])"

text \<open>
  The function \<open>isFirstCommit(allCommits, commitHash)\<close> of the source (the name
  is taken by the field of \<open>commit\<close>).
\<close>

definition isFirstCommitOf :: "logEntry list \<Rightarrow> string \<Rightarrow> bool" where
  "isFirstCommitOf allCommits commitHash \<longleftrightarrow>
     findIndex (\<lambda>c. le_hash c = commitHash) allCommits = int (length allCommits) - 1"

definition toCommit :: "platform \<Rightarrow> logEntry list \<Rightarrow> logEntry \<Rightarrow> commit" where
  "toCommit pf allCommits c =
     \<lparr>hash = le_hash c, date = formatDate pf (le_date c), message = le_message c,
      author = le_author_name c, email = le_author_email c,
      isFirstCommit = isFirstCommitOf allCommits (le_hash c)\<rparr>"

definition getCommitsInDateRange :: "platform \<Rightarrow> git \<Rightarrow> commit list" where
  "getCommitsInDateRange pf g =
     (if \<not> hasAnyCommits (revParseHeadAgain g) then []
      else (case log g of
              Inl e \<Rightarrow> []
            | Inr allCommits \<Rightarrow>
                map (toCommit pf allCommits)
                  (filter (\<lambda>c. isDateInReportRange pf (le_date c)) allCommits)))"

section \<open>The per-repository analyzer\<close>

record fileChangeCounts =
  added :: nat
  modified :: nat
  deleted :: nat
  renamed :: nat

record lineChangeCounts =
  additions :: nat
  deletions :: nat

text \<open>The value of \<open>commitsByAuthor[author]\<close>: \<open>{commits, additions, deletions}\<close>.\<close>

record authorStats =
  a_commits :: nat
  a_additions :: nat
  a_deletions :: nat

text \<open>An element of \<open>allChangedFiles\<close>: \<open>{path, type, commit}\<close>.\<close>

record changedFile =
  cf_path :: string
  cf_type :: changeType
  cf_commit :: string

text \<open>
  The \<open>analysis\<close> object; \<open>fileTypes\<close> and \<open>commitsByAuthor\<close> are objects used as
  dictionaries, an element \<open>{path, count}\<close> of \<open>mostChangedFiles\<close> is a pair.
\<close>

record repoAnalysis =
  totalCommits :: nat
  totalFilesChanged :: nat
  fileTypes :: "(string \<times> nat) list"
  fileChanges :: fileChangeCounts
  lineChanges :: lineChangeCounts
  mostChangedFiles :: "(string \<times> nat) list"
  commitsByAuthor :: "(string \<times> authorStats) list"

text \<open>The state of the loop over the commits: \<open>analysis\<close> and \<open>allChangedFiles\<close>.\<close>

type_synonym loopState = "repoAnalysis \<times> changedFile list"

definition addLines :: "nat \<Rightarrow> nat \<Rightarrow> repoAnalysis \<Rightarrow> repoAnalysis" where
  "addLines ins del a =
     a\<lparr>lineChanges :=
         \<lparr>additions = additions (lineChanges a) + ins,
          deletions = deletions (lineChanges a) + del\<rparr>\<rparr>"

text \<open>
  The \<open>switch (file.type)\<close> of the loop: four cases, no default; a copied or
  unknown change leaves the counters as they are.
\<close>

definition countChangeType :: "changeType \<Rightarrow> fileChangeCounts \<Rightarrow> fileChangeCounts" where
  "countChangeType t fc =
     (case t of
        Added \<Rightarrow> fc\<lparr>added := added fc + 1\<rparr>
      | Modified \<Rightarrow> fc\<lparr>modified := modified fc + 1\<rparr>
      | Deleted \<Rightarrow> fc\<lparr>deleted := deleted fc + 1\<rparr>
      | Renamed \<Rightarrow> fc\<lparr>renamed := renamed fc + 1\<rparr>
      | Copied \<Rightarrow> fc
      | Unknown \<Rightarrow> fc)"

text \<open>The body of \<open>changedFiles.forEach\<close>.\<close>

definition addFile :: "platform \<Rightarrow> config \<Rightarrow> commit \<Rightarrow> loopState \<Rightarrow> fileChange \<Rightarrow> loopState" where
  "addFile pf cfg c st file =
     (let (a, allChangedFiles) = st;
          ext = toLowerCase pf (extname pf (path file));
          a1 = (if ext \<noteq> [] \<and> ext \<notin> set (ignoreFileTypes cfg)
                then a\<lparr>fileTypes :=
                        AList.update ext (orZero (map_of (fileTypes a) ext) + 1) (fileTypes a)\<rparr>
                else a);
          a2 = a1\<lparr>fileChanges := countChangeType (type file) (fileChanges a1)\<rparr>
      in (a2, allChangedFiles @
                [\<lparr>cf_path = path file, cf_type = type file, cf_commit = hash c\<rparr>]))"

text \<open>
  The author's entry is created when missing and its commit count is
  incremented.
\<close>

definition countAuthorCommit :: "commit \<Rightarrow> repoAnalysis \<Rightarrow> repoAnalysis" where
  "countAuthorCommit c a =
     (let cba = (if map_of (commitsByAuthor a) (author c) = None
                 then AList.update (author c)
                        \<lparr>a_commits = 0, a_additions = 0, a_deletions = 0\<rparr> (commitsByAuthor a)
                 else commitsByAuthor a)
      in a\<lparr>commitsByAuthor :=
             AList.map_entry (author c) (\<lambda>s. s\<lparr>a_commits := a_commits s + 1\<rparr>) cba\<rparr>)"

definition addAuthorLines :: "commit \<Rightarrow> diffStat \<Rightarrow> repoAnalysis \<Rightarrow> repoAnalysis" where
  "addAuthorLines c stats a =
     a\<lparr>commitsByAuthor :=
         AList.map_entry (author c)
           (\<lambda>s. s\<lparr>a_additions := a_additions s + insertions stats,
                  a_deletions := a_deletions s + stat_deletions stats\<rparr>)
           (commitsByAuthor a)\<rparr>"

definition recordFiles :: "platform \<Rightarrow> config \<Rightarrow> commit \<Rightarrow> fileChange list \<Rightarrow> loopState \<Rightarrow> loopState" where
  "recordFiles pf cfg c changedFiles st = foldl (addFile pf cfg c) st changedFiles"

text \<open>
  One turn of \<open>for (const commit of commits)\<close>.  A query that throws ends the
  turn in the \<open>catch\<close>, which logs and goes on to the next commit: the state is
  the one reached when the query was sent.
\<close>

definition processCommit :: "platform \<Rightarrow> config \<Rightarrow> git \<Rightarrow> loopState \<Rightarrow> commit \<Rightarrow> loopState" where
  "processCommit pf cfg g st c =
     (if isFirstCommit c then
        (case lsTree g (hash c) of
           Inl e \<Rightarrow> st
         | Inr files \<Rightarrow>
             (case showStat g (hash c) of
                Inl e \<Rightarrow> st
              | Inr shown \<Rightarrow>
                  (let (a, acf) = st;
                       a1 = (case statMatch shown of
                               Some (n, ins, del) \<Rightarrow> addLines (parseIntOr0 ins) (parseIntOr0 del) a
                             | None \<Rightarrow> a);
                       (a2, acf2) = recordFiles pf cfg c (parseFirstCommitFiles files) (a1, acf)
                   in (countAuthorCommit c a2, acf2))))
      else
        (case diffSummary g (hash c) of
           Inl e \<Rightarrow> st
         | Inr stats \<Rightarrow>
             (let (a, acf) = st;
                  a1 = addLines (insertions stats) (stat_deletions stats) a
              in (case diffNameStatus g (hash c) of
                    Inl e \<Rightarrow> (a1, acf)
                  | Inr diff \<Rightarrow>
                      (let (a2, acf2) = recordFiles pf cfg c (parseGitDiff diff) (a1, acf);
                           a3 = countAuthorCommit c a2
                       in (case diffSummaryAgain g (hash c) of
                             Inl e \<Rightarrow> (a3, acf2)
                           | Inr stats2 \<Rightarrow> (addAuthorLines c stats2 a3, acf2)))))))"

definition initialAnalysis :: "commit list \<Rightarrow> repoAnalysis" where
  "initialAnalysis commits =
     \<lparr>totalCommits = length commits, totalFilesChanged = 0, fileTypes = [],
      fileChanges = \<lparr>added = 0, modified = 0, deleted = 0, renamed = 0\<rparr>,
      lineChanges = \<lparr>additions = 0, deletions = 0\<rparr>,
      mostChangedFiles = [], commitsByAuthor = []\<rparr>"

text \<open>The loop over \<open>commits\<close>, from a given state.\<close>

definition analyzeCommits :: "platform \<Rightarrow> config \<Rightarrow> git \<Rightarrow> commit list \<Rightarrow> loopState \<Rightarrow> loopState" where
  "analyzeCommits pf cfg g commits st = foldl (processCommit pf cfg g) st commits"

text \<open>The comparator \<open>(a, b) => b.count - a.count\<close>.\<close>

definition byCountDesc :: "string \<times> nat \<Rightarrow> string \<times> nat \<Rightarrow> int" where
  "byCountDesc a b = int (snd b) - int (snd a)"

text \<open>What follows the loop: the distinct paths and the five most changed files.\<close>

definition finishAnalysis :: "loopState \<Rightarrow> repoAnalysis" where
  "finishAnalysis st =
     (let (a, allChangedFiles) = st;
          fileChangeCounts = countBy cf_path allChangedFiles
      in a\<lparr>totalFilesChanged := length (uniqBy cf_path allChangedFiles),
            mostChangedFiles := take 5 (sortCmp byCountDesc (objectEntries fileChangeCounts))\<rparr>)"

definition analyzeCodeChanges :: "platform \<Rightarrow> config \<Rightarrow> git \<Rightarrow> commit list \<Rightarrow> repoAnalysis option" where
  "analyzeCodeChanges pf cfg g commits =
     (if \<not> includeCodeAnalysis cfg \<or> length commits = 0 then None
      else Some (finishAnalysis (analyzeCommits pf cfg g commits (initialAnalysis commits, []))))"

section \<open>Reports and the cross-repository summary\<close>

text \<open>
  The result of \<open>getRepositoryInfo\<close>; a field the object does not have is \<open>None\<close>,
  as is a \<open>null\<close>.
\<close>

record repoInfo =
  repoPath :: string
  name :: string
  remote :: "string option"
  currentBranch :: "string option"
  lastCommitDate :: "string option"
  error :: "string option"
  isEmpty :: bool

text \<open>
  \<open>getCurrentBranch\<close>; the fixed word the source returns when the query throws
  (it means "unknown") is written \<open>?\<close> here.
\<close>

definition getCurrentBranch :: "git \<Rightarrow> string" where
  "getCurrentBranch g = (case symbolicRefHead g of Inl e \<Rightarrow> ''?'' | Inr result \<Rightarrow> trim result)"

definition errorInfo :: "platform \<Rightarrow> string \<Rightarrow> gitError \<Rightarrow> repoInfo" where
  "errorInfo pf p e =
     (case e of GitError msg \<Rightarrow>
        \<lparr>repoPath = p, name = basename pf p, remote = None, currentBranch = None,
         lastCommitDate = None, error = Some msg, isEmpty = True\<rparr>)"

definition getRepositoryInfo :: "platform \<Rightarrow> git \<Rightarrow> string \<Rightarrow> repoInfo" where
  "getRepositoryInfo pf g p =
     (if \<not> hasAnyCommits (revParseHead g) then
        \<lparr>repoPath = p, name = basename pf p, remote = None,
         currentBranch = Some (getCurrentBranch g), lastCommitDate = None,
         error = None, isEmpty = True\<rparr>
      else
        (case getRemotes g of
           Inl e \<Rightarrow> errorInfo pf p e
         | Inr remotes \<Rightarrow>
             (case branch g of
                Inl e \<Rightarrow> errorInfo pf p e
              | Inr current \<Rightarrow>
                  (case logLatest g of
                     Inl e \<Rightarrow> errorInfo pf p e
                   | Inr latest \<Rightarrow>
                       \<lparr>repoPath = p, name = basename pf p,
                        remote = (case remotes of [] \<Rightarrow> None | r # _ \<Rightarrow> Some r),
                        currentBranch = Some current,
                        lastCommitDate = map_option (formatDate pf) latest,
                        error = None, isEmpty = False\<rparr>))))"

text \<open>A repository report: \<open>{...repoInfo, commits, analysis}\<close>.\<close>

record repoReport =
  info :: repoInfo
  commits :: "commit list"
  analysis :: "repoAnalysis option"

definition generateRepoReport :: "platform \<Rightarrow> config \<Rightarrow> git \<Rightarrow> string \<Rightarrow> repoReport" where
  "generateRepoReport pf cfg g p =
     (let repoInfo = getRepositoryInfo pf g p
      in if (case error repoInfo of Some msg \<Rightarrow> msg \<noteq> [] | None \<Rightarrow> False)
         then \<lparr>info = repoInfo, commits = [], analysis = None\<rparr>
         else if isEmpty repoInfo
         then \<lparr>info = repoInfo, commits = [], analysis = None\<rparr>
         else (let cs = getCommitsInDateRange pf g
               in if length cs = 0
                  then \<lparr>info = repoInfo, commits = [], analysis = None\<rparr>
                  else \<lparr>info = repoInfo, commits = cs,
                        analysis = analyzeCodeChanges pf cfg g cs\<rparr>))"

text \<open>The \<open>summary\<close> object of \<open>generateSummaryStats\<close>.\<close>

record summary =
  s_totalCommits :: nat
  s_totalFilesChanged :: nat
  totalAdditions :: nat
  totalDeletions :: nat
  s_commitsByAuthor :: "(string \<times> authorStats) list"
  s_fileTypes :: "(string \<times> nat) list"
  s_fileChanges :: fileChangeCounts

definition addFileType :: "(string \<times> nat) list \<Rightarrow> string \<times> nat \<Rightarrow> (string \<times> nat) list" where
  "addFileType ft e =
     (case e of (t, n) \<Rightarrow> AList.update t (orZero (map_of ft t) + n) ft)"

definition addAuthor :: "(string \<times> authorStats) list \<Rightarrow> string \<times> authorStats \<Rightarrow> (string \<times> authorStats) list" where
  "addAuthor cba e =
     (case e of (au, stats) \<Rightarrow>
        (let cba1 = (if map_of cba au = None
                     then AList.update au \<lparr>a_commits = 0, a_additions = 0, a_deletions = 0\<rparr> cba
                     else cba)
         in AList.map_entry au
              (\<lambda>s. s\<lparr>a_commits := a_commits s + a_commits stats,
                     a_additions := a_additions s + a_additions stats,
                     a_deletions := a_deletions s + a_deletions stats\<rparr>) cba1))"

definition addFileChanges :: "fileChangeCounts \<Rightarrow> fileChangeCounts \<Rightarrow> fileChangeCounts" where
  "addFileChanges x y =
     \<lparr>added = added x + added y, modified = modified x + modified y,
      deleted = deleted x + deleted y, renamed = renamed x + renamed y\<rparr>"

text \<open>The body of \<open>repoReports.forEach\<close>.\<close>

definition addRepo :: "summary \<Rightarrow> repoReport \<Rightarrow> summary" where
  "addRepo s repo =
     (let s1 = s\<lparr>s_totalCommits := s_totalCommits s + length (commits repo)\<rparr>
      in (case analysis repo of
            None \<Rightarrow> s1
          | Some a \<Rightarrow>
              s1\<lparr>s_totalFilesChanged := s_totalFilesChanged s1 + totalFilesChanged a,
                 totalAdditions := totalAdditions s1 + additions (lineChanges a),
                 totalDeletions := totalDeletions s1 + deletions (lineChanges a),
                 s_fileTypes := foldl addFileType (s_fileTypes s1) (objectEntries (fileTypes a)),
                 s_fileChanges := addFileChanges (s_fileChanges s1) (fileChanges a),
                 s_commitsByAuthor :=
                   foldl addAuthor (s_commitsByAuthor s1) (objectEntries (commitsByAuthor a))\<rparr>))"

definition emptySummary :: summary where
  "emptySummary =
     \<lparr>s_totalCommits = 0, s_totalFilesChanged = 0, totalAdditions = 0, totalDeletions = 0,
      s_commitsByAuthor = [], s_fileTypes = [],
      s_fileChanges = \<lparr>added = 0, modified = 0, deleted = 0, renamed = 0\<rparr>\<rparr>"

definition generateSummaryStats :: "repoReport list \<Rightarrow> summary" where
  "generateSummaryStats repoReports = foldl addRepo emptySummary repoReports"

record fullReport =
  startDate :: string
  endDate :: string
  totalRepos :: nat
  reposWithCommits :: nat
  summaryOf :: summary
  repositories :: "repoReport list"

text \<open>The comparator \<open>(a, b) => b.commits.length - a.commits.length\<close>.\<close>

definition byCommitsDesc :: "repoReport \<Rightarrow> repoReport \<Rightarrow> int" where
  "byCommitsDesc a b = int (length (commits b)) - int (length (commits a))"

text \<open>
  \<open>generateFullReport\<close>; \<open>simpleGit\<close> gives the handle of the repository at a
  path.
\<close>

definition generateFullReport :: "platform \<Rightarrow> config \<Rightarrow> (string \<Rightarrow> git) \<Rightarrow> string list \<Rightarrow> fullReport" where
  "generateFullReport pf cfg simpleGit repoPaths =
     (let repoReports =
            sortCmp byCommitsDesc
              (filter (\<lambda>report. length (commits report) > 0)
                 (map (\<lambda>p. generateRepoReport pf cfg (simpleGit p) p) repoPaths))
      in \<lparr>startDate = formatDate pf (getReportStartDate pf),
          endDate = formatDate pf (getReportEndDate pf),
          totalRepos = length repoPaths,
          reposWithCommits = length repoReports,
          summaryOf = generateSummaryStats repoReports,
          repositories = repoReports\<rparr>)"

section \<open>Notions used in the statements and proofs\<close>

text \<open>
  The definitions of this section are not part of the program: they name what
  the claims speak about and what the proofs keep track of.
\<close>

text \<open>The file-change records of a repository: \<open>allChangedFiles\<close> when the loop ends.\<close>

definition changedFilesOf :: "platform \<Rightarrow> config \<Rightarrow> git \<Rightarrow> commit list \<Rightarrow> changedFile list" where
  "changedFilesOf pf cfg g cs = snd (analyzeCommits pf cfg g cs (initialAnalysis cs, []))"

text \<open>The number of records of a change type.\<close>

definition countType :: "changeType \<Rightarrow> changedFile list \<Rightarrow> nat" where
  "countType t files = length (filter (\<lambda>f. cf_type f = t) files)"

text \<open>The counters of the analysis agree with the records, for the four counted types.\<close>

definition typeCountsOk :: "loopState \<Rightarrow> bool" where
  "typeCountsOk st \<longleftrightarrow>
     added (fileChanges (fst st)) = countType Added (snd st)
     \<and> modified (fileChanges (fst st)) = countType Modified (snd st)
     \<and> deleted (fileChanges (fst st)) = countType Deleted (snd st)
     \<and> renamed (fileChanges (fst st)) = countType Renamed (snd st)"

text \<open>The commit counts of all authors together.\<close>

definition authorCommitSum :: "repoAnalysis \<Rightarrow> nat" where
  "authorCommitSum a = (\<Sum>e\<leftarrow>commitsByAuthor a. a_commits (snd e))"

text \<open>The statistics of a new author entry.\<close>

definition noStats :: authorStats where
  "noStats = \<lparr>a_commits = 0, a_additions = 0, a_deletions = 0\<rparr>"

text \<open>\<open>commitsByAuthor[au]\<close>, all zero for an author without an entry.\<close>

definition authorStatsOf :: "repoAnalysis \<Rightarrow> string \<Rightarrow> authorStats" where
  "authorStatsOf a au = (case map_of (commitsByAuthor a) au of None \<Rightarrow> noStats | Some s \<Rightarrow> s)"

text \<open>
  The additions and deletions of a commit's diff stats: parsed from the stat
  text for a root commit, the first diff summary for another commit; nothing
  when the query for them, or one before it, fails.
\<close>

definition commitLineStats :: "git \<Rightarrow> commit \<Rightarrow> nat \<times> nat" where
  "commitLineStats g c =
     (if isFirstCommit c then
        (case lsTree g (hash c) of
           Inl e \<Rightarrow> (0, 0)
         | Inr files \<Rightarrow>
             (case showStat g (hash c) of
                Inl e \<Rightarrow> (0, 0)
              | Inr shown \<Rightarrow>
                  (case statMatch shown of
                     None \<Rightarrow> (0, 0)
                   | Some (n, ins, del) \<Rightarrow> (parseIntOr0 ins, parseIntOr0 del))))
      else
        (case diffSummary g (hash c) of
           Inl e \<Rightarrow> (0, 0)
         | Inr stats \<Rightarrow> (insertions stats, stat_deletions stats)))"

text \<open>The queries that list the files of the commit, and those before them, succeed.\<close>

definition classified :: "git \<Rightarrow> commit \<Rightarrow> bool" where
  "classified g c \<longleftrightarrow>
     (if isFirstCommit c then \<not> isl (lsTree g (hash c)) \<and> \<not> isl (showStat g (hash c))
      else \<not> isl (diffSummary g (hash c)) \<and> \<not> isl (diffNameStatus g (hash c)))"

text \<open>What the second diff summary gives for a classified commit.\<close>

definition authorLineStats :: "git \<Rightarrow> commit \<Rightarrow> nat \<times> nat" where
  "authorLineStats g c =
     (if classified g c then
        (case diffSummaryAgain g (hash c) of
           Inl e \<Rightarrow> (0, 0)
         | Inr stats \<Rightarrow> (insertions stats, stat_deletions stats))
      else (0, 0))"

text \<open>
  The classification fails at a query sent before anything of the commit is
  counted: the tree listing or the stat text of a root commit, the first diff
  summary of another commit.
\<close>

definition failsBeforeCounting :: "git \<Rightarrow> commit \<Rightarrow> bool" where
  "failsBeforeCounting g c \<longleftrightarrow>
     (if isFirstCommit c then isl (lsTree g (hash c)) \<or> isl (showStat g (hash c))
      else isl (diffSummary g (hash c)))"


text \<open>
  Every path of the records is touched by exactly one commit: the records with
  the path of a record name one commit.
\<close>

definition everyPathInOneCommit :: "changedFile list \<Rightarrow> bool" where
  "everyPathInOneCommit files \<longleftrightarrow>
     list_all
       (\<lambda>f. length (remdups (map cf_commit (filter (\<lambda>f'. cf_path f' = cf_path f) files))) = 1)
       files"

text \<open>The position of the first occurrence of a path in a list of paths.\<close>

definition firstPos :: "string list \<Rightarrow> string \<Rightarrow> nat" where
  "firstPos ps p = length (takeWhile (\<lambda>q. q \<noteq> p) ps)"

text \<open>
  The order in which \<open>Object.entries\<close> lists two keys of an object whose keys were
  created in the order of their first occurrences in \<open>ps\<close>.
\<close>

definition keyBefore :: "string list \<Rightarrow> string \<Rightarrow> string \<Rightarrow> bool" where
  "keyBefore ps p q \<longleftrightarrow>
     (if isArrayIndex p then (isArrayIndex q \<longrightarrow> parseNat p < parseNat q)
      else \<not> isArrayIndex q \<and> firstPos ps p < firstPos ps q)"

text \<open>
  The order of two \<open>{path, count}\<close> entries: the larger count first, equal counts
  in the order of \<open>Object.entries\<close>.
\<close>

definition rankedBefore :: "string list \<Rightarrow> string \<times> nat \<Rightarrow> string \<times> nat \<Rightarrow> bool" where
  "rankedBefore ps x y \<longleftrightarrow>
     snd y < snd x \<or> (snd x = snd y \<and> keyBefore ps (fst x) (fst y))"

text \<open>
  The summary as the claims compare it: its totals, its counters, and its two
  objects as maps from keys to values.  \<open>viewAddRepo\<close> is what adding one
  repository report does to this view.
\<close>

definition mergeCount :: "string \<times> nat \<Rightarrow> (string \<rightharpoonup> nat) \<Rightarrow> (string \<rightharpoonup> nat)" where
  "mergeCount e m = (case e of (k, n) \<Rightarrow> m(k \<mapsto> orZero (m k) + n))"

definition addStats :: "authorStats \<Rightarrow> authorStats \<Rightarrow> authorStats" where
  "addStats s t =
     \<lparr>a_commits = a_commits s + a_commits t, a_additions = a_additions s + a_additions t,
      a_deletions = a_deletions s + a_deletions t\<rparr>"

definition mergeAuthor :: "string \<times> authorStats \<Rightarrow> (string \<rightharpoonup> authorStats) \<Rightarrow> (string \<rightharpoonup> authorStats)" where
  "mergeAuthor e m =
     (case e of (k, t) \<Rightarrow> m(k \<mapsto> addStats (case m k of None \<Rightarrow> noStats | Some s \<Rightarrow> s) t))"

type_synonym summaryView =
  "nat \<times> nat \<times> nat \<times> nat \<times> (string \<rightharpoonup> authorStats) \<times> (string \<rightharpoonup> nat) \<times> fileChangeCounts"

definition summaryView :: "summary \<Rightarrow> summaryView" where
  "summaryView s =
     (s_totalCommits s, s_totalFilesChanged s, totalAdditions s, totalDeletions s,
      map_of (s_commitsByAuthor s), map_of (s_fileTypes s), s_fileChanges s)"

definition viewAddRepo :: "repoReport \<Rightarrow> summaryView \<Rightarrow> summaryView" where
  "viewAddRepo r v =
     (case v of (tc, tf, ta, td, cba, ft, fc) \<Rightarrow>
        (case analysis r of
           None \<Rightarrow> (tc + length (commits r), tf, ta, td, cba, ft, fc)
         | Some a \<Rightarrow>
             (tc + length (commits r), tf + totalFilesChanged a,
              ta + additions (lineChanges a), td + deletions (lineChanges a),
              fold mergeAuthor (commitsByAuthor a) cba, fold mergeCount (fileTypes a) ft,
              addFileChanges fc (fileChanges a))))"

section \<open>Example repositories\<close>

text \<open>
  A platform for the examples: the extension of a path is its text from the
  last dot, instants are shown as decimal numbers, the window is \<open>[10, 20]\<close>.
\<close>

definition dotSuffix :: "string \<Rightarrow> string" where
  "dotSuffix s =
     (if CHR ''.'' \<in> set s then CHR ''.'' # rev (takeWhile (\<lambda>c. c \<noteq> CHR ''.'') (rev s)) else [])"

definition examplePlatform :: platform where
  "examplePlatform =
     \<lparr>extname = dotSuffix, basename = (\<lambda>p. p), toLowerCase = (\<lambda>s. s),
      formatDate = (\<lambda>d. showNat (nat d)), getReportStartDate = 10, getReportEndDate = 20\<rparr>"

text \<open>The default configuration of the program.\<close>

definition exampleConfig :: config where
  "exampleConfig =
     \<lparr>includeCodeAnalysis = True,
      ignoreFileTypes = [''.log'', ''.lock'', ''.md'', ''.gitignore'', ''.DS_Store'']\<rparr>"

text \<open>A handle whose every query throws; the examples override the queries they need.\<close>

definition failingGit :: git where
  "failingGit =
     \<lparr>revParseHead = Inl (GitError ''fatal''), revParseHeadAgain = Inl (GitError ''fatal''),
      symbolicRefHead = Inl (GitError ''fatal''), getRemotes = Inl (GitError ''fatal''),
      branch = Inl (GitError ''fatal''), logLatest = Inl (GitError ''fatal''),
      log = Inl (GitError ''fatal''),
      lsTree = (\<lambda>h. Inl (GitError ''fatal'')), showStat = (\<lambda>h. Inl (GitError ''fatal'')),
      diffSummary = (\<lambda>h. Inl (GitError ''fatal'')),
      diffNameStatus = (\<lambda>h. Inl (GitError ''fatal'')),
      diffSummaryAgain = (\<lambda>h. Inl (GitError ''fatal''))\<rparr>"

definition commitBy :: "string \<Rightarrow> string \<Rightarrow> bool \<Rightarrow> commit" where
  "commitBy h au root =
     \<lparr>hash = h, date = ''2024-01-01 00:00:00'', message = ''work'', author = au,
      email = ''dev@example.org'', isFirstCommit = root\<rparr>"

text \<open>A repository whose commits copy \<open>a.c\<close> to \<open>b.c\<close>.\<close>

definition copyGit :: git where
  "copyGit =
     failingGit\<lparr>diffSummary := (\<lambda>h. Inr \<lparr>insertions = 0, stat_deletions = 0\<rparr>),
                diffNameStatus := (\<lambda>h. Inr (''C100'' @ TAB # ''a.c'' @ TAB # ''b.c'' @ [NL])),
                diffSummaryAgain := (\<lambda>h. Inr \<lparr>insertions = 0, stat_deletions = 0\<rparr>)\<rparr>"

text \<open>
  A repository with a root commit \<open>c1\<close> (one file, ten lines) and commits that
  modify \<open>x.ts\<close> and add \<open>y.ts\<close> (four lines added, one deleted).
\<close>

definition workGit :: git where
  "workGit =
     failingGit\<lparr>lsTree := (\<lambda>h. Inr (''100644 blob 1f2e'' @ TAB # ''x.ts'' @ [NL])),
                showStat := (\<lambda>h. Inr '' x.ts | 10 ++++++++++ 1 file changed, 10 insertions(+)''),
                diffSummary := (\<lambda>h. Inr \<lparr>insertions = 4, stat_deletions = 1\<rparr>),
                diffNameStatus := (\<lambda>h. Inr (''M'' @ TAB # ''x.ts'' @ NL # ''A'' @ TAB # ''y.ts'' @ [NL])),
                diffSummaryAgain := (\<lambda>h. Inr \<lparr>insertions = 4, stat_deletions = 1\<rparr>)\<rparr>"



text \<open>A history of three commits, newest first; the root commit \<open>c1\<close> is older than the window.\<close>

definition example_history :: "logEntry list" where
  "example_history =
     [\<lparr>le_hash = ''c3'', le_date = 15, le_message = ''fix'', le_author_name = ''ann'', le_author_email = ''a@example.org''\<rparr>,
      \<lparr>le_hash = ''c2'', le_date = 12, le_message = ''more'', le_author_name = ''bob'', le_author_email = ''b@example.org''\<rparr>,
      \<lparr>le_hash = ''c1'', le_date = 3, le_message = ''init'', le_author_name = ''ann'', le_author_email = ''a@example.org''\<rparr>]"

text \<open>A repository with this history; its other queries answer as \<open>workGit\<close>.\<close>

definition historyGit :: git where
  "historyGit = workGit\<lparr>revParseHead := Inr ''c3'', revParseHeadAgain := Inr ''c3'',
      symbolicRefHead := Inr ''main'', getRemotes := Inr [], branch := Inr ''main'',
      logLatest := Inr (Some 15), log := Inr example_history\<rparr>"

text \<open>
  A repository whose tree listing has no tab: one file name per line, as
  \<open>git ls-tree --name-status\<close> prints it.
\<close>

definition flatTreeGit :: git where
  "flatTreeGit =
     workGit\<lparr>lsTree := (\<lambda>h. Inr (''a.go'' @ NL # ''b.md'' @ [NL])),
             showStat := (\<lambda>h. Inr '' 2 files changed, 7 insertions(+)'')\<rparr>"

text \<open>
  The file name \<open>dir/a<TAB>b.txt\<close> as git prints it in a tree listing and in a
  name-status diff: in double quotes, the tab written as a backslash and a \<open>t\<close>.
\<close>

definition quotedTabName :: string where
  "quotedTabName = CHR 0x22 # ''dir/a'' @ CHR 0x5C # ''tb.txt'' @ [CHR 0x22]"

text \<open>A repository whose commits modify the files \<open>b\<close> and \<open>1\<close>, listed in this order.\<close>

definition digitsGit :: git where
  "digitsGit =
     workGit\<lparr>diffNameStatus := (\<lambda>h. Inr (''M'' @ TAB # ''b'' @ NL # ''M'' @ TAB # ''1'' @ [NL]))\<rparr>"

text \<open>Two repository reports with a common file type and a common author.\<close>

definition reportA :: repoReport where
  "reportA =
     \<lparr>info = \<lparr>repoPath = ''/code/a'', name = ''a'', remote = None, currentBranch = Some ''main'',
              lastCommitDate = Some ''15'', error = None, isEmpty = False\<rparr>,
      commits = [commitBy ''c1'' ''ann'' True],
      analysis = Some
        \<lparr>totalCommits = 1, totalFilesChanged = 2, fileTypes = [(''.ts'', 2)],
         fileChanges = \<lparr>added = 2, modified = 0, deleted = 0, renamed = 0\<rparr>,
         lineChanges = \<lparr>additions = 10, deletions = 0\<rparr>,
         mostChangedFiles = [(''x.ts'', 1), (''y.ts'', 1)],
         commitsByAuthor = [(''ann'', \<lparr>a_commits = 1, a_additions = 0, a_deletions = 0\<rparr>)]\<rparr>\<rparr>"

definition reportB :: repoReport where
  "reportB =
     \<lparr>info = \<lparr>repoPath = ''/code/b'', name = ''b'', remote = None, currentBranch = Some ''main'',
              lastCommitDate = Some ''16'', error = None, isEmpty = False\<rparr>,
      commits = [commitBy ''d2'' ''bob'' False, commitBy ''d1'' ''ann'' False],
      analysis = Some
        \<lparr>totalCommits = 2, totalFilesChanged = 2, fileTypes = [(''.go'', 1), (''.ts'', 1)],
         fileChanges = \<lparr>added = 0, modified = 2, deleted = 1, renamed = 0\<rparr>,
         lineChanges = \<lparr>additions = 5, deletions = 3\<rparr>,
         mostChangedFiles = [(''m.go'', 2), (''x.ts'', 1)],
         commitsByAuthor = [(''bob'', \<lparr>a_commits = 1, a_additions = 4, a_deletions = 1\<rparr>),
                            (''ann'', \<lparr>a_commits = 1, a_additions = 1, a_deletions = 2\<rparr>)]\<rparr>\<rparr>"

text \<open>The repositories of a run: \<open>empty\<close> has no resolvable head, the others are \<open>historyGit\<close>.\<close>

definition exampleRepos :: "string \<Rightarrow> git" where
  "exampleRepos p = (if p = ''empty'' then failingGit else historyGit)"

text \<open>The default configuration with code analysis switched off.\<close>

definition analysisOffConfig :: config where
  "analysisOffConfig = exampleConfig\<lparr>includeCodeAnalysis := False\<rparr>"

text \<open>The definitions that the examples unfold.\<close>

lemmas eval_defs =
  analyzeCodeChanges_def changedFilesOf_def analyzeCommits_def processCommit_def
  initialAnalysis_def finishAnalysis_def recordFiles_def addFile_def addLines_def
  countAuthorCommit_def addAuthorLines_def countChangeType_def
  parseGitDiff_def parseFirstCommitFiles_def gitDiffLine_def firstCommitLine_def
  nonBlankLines_def trim_def isWhiteSpace_def changeTypeOf_def TAB_def NL_def
  examplePlatform_def exampleConfig_def failingGit_def commitBy_def dotSuffix_def
  orZero_def countBy_def countStep_def uniqBy_def sortCmp_def byCountDesc_def
  objectEntries_def parseNat_def digitVal_def Let_def
  statMatchHere_def countedWord_def optionalGroup_def optionalS_def parseIntOr0_def isDigit_def
  countType_def commitLineStats_def classified_def authorLineStats_def authorStatsOf_def
  noStats_def failsBeforeCounting_def

section \<open>Facts about splitting and joining\<close>

lemma split_not_Nil [simp]: "split sep s \<noteq> []"
  by (induction s) (auto split: list.splits)

lemma split_no_sep: "sep \<notin> set s \<Longrightarrow> split sep s = [s]"
  by (induction s) auto

lemma split_append_sep:
  "sep \<notin> set a \<Longrightarrow> split sep (a @ sep # b) = a # split sep b"
  by (induction a) auto

lemma join_split: "join sep (split sep s) = s"
proof (induction s)
  case Nil
  show ?case by simp
next
  case (Cons c cs)
  show ?case
  proof (cases "c = sep")
    case True
    obtain w ws where "split sep cs = w # ws"
      by (cases "split sep cs") auto
    with True Cons show ?thesis by auto
  next
    case False
    obtain w ws where ws: "split sep cs = w # ws"
      by (cases "split sep cs") auto
    with False Cons show ?thesis by (cases ws) auto
  qed
qed

text \<open>
  The non-root branch: whatever follows the first tab of a status line,
  tabs included, is the path.
\<close>

lemma gitDiffLine_path:
  "TAB \<notin> set st \<Longrightarrow> path (gitDiffLine (st @ TAB # rest)) = rest"
  by (simp add: gitDiffLine_def split_append_sep join_split)

lemma gitDiffLine_status:
  "TAB \<notin> set st \<Longrightarrow> status (gitDiffLine (st @ TAB # rest)) = st"
  by (simp add: gitDiffLine_def split_append_sep)

text \<open>
  The root branch: a line without a tab, which is every line of the tree
  listing that git prints (one file name per line), gets the empty path.
\<close>

lemma firstCommitLine_no_tab: "TAB \<notin> set line \<Longrightarrow> path (firstCommitLine line) = []"
  by (simp add: firstCommitLine_def split_no_sep Let_def)

text \<open>
  C3.  Claim: in both classification branches the path of a file whose name
  contains a tab is the whole portion of the line after the status token.  The
  non-root branch does so (\<open>gitDiffLine_path\<close>): the quoted name is kept whole,
  and so are the two names of a rename line, tab included.  The root branch does
  not: the tree listing has no status token and no tab, the line of the file is
  its quoted name, and the path produced is empty.
\<close>

theorem parseFirstCommitFiles_loses_path:
  "map path (parseFirstCommitFiles (quotedTabName @ [NL])) = ['''']
   \<and> map path (parseGitDiff (''A'' @ TAB # quotedTabName @ [NL])) = [quotedTabName]
   \<and> map path (parseGitDiff (''R100'' @ TAB # ''old.c'' @ TAB # ''new.c'' @ [NL]))
     = [''old.c'' @ TAB # ''new.c'']"
  by (simp add: parseFirstCommitFiles_def parseGitDiff_def nonBlankLines_def
      firstCommitLine_def gitDiffLine_def trim_def isWhiteSpace_def TAB_def NL_def Let_def
      quotedTabName_def)

section \<open>The loop over the files of a commit\<close>

lemma addFile_other:
  "lineChanges (fst (addFile pf cfg c (a, acf) f)) = lineChanges a"
  "commitsByAuthor (fst (addFile pf cfg c (a, acf) f)) = commitsByAuthor a"
  "totalCommits (fst (addFile pf cfg c (a, acf) f)) = totalCommits a"
  by (simp_all add: addFile_def Let_def)

lemma recordFiles_Nil [simp]: "recordFiles pf cfg c [] st = st"
  by (simp add: recordFiles_def)

lemma recordFiles_snoc:
  "recordFiles pf cfg c (fs @ [f]) st = addFile pf cfg c (recordFiles pf cfg c fs st) f"
  by (simp add: recordFiles_def)

lemma recordFiles_other:
  "lineChanges (fst (recordFiles pf cfg c fs (a, acf))) = lineChanges a
   \<and> commitsByAuthor (fst (recordFiles pf cfg c fs (a, acf))) = commitsByAuthor a
   \<and> totalCommits (fst (recordFiles pf cfg c fs (a, acf))) = totalCommits a"
proof (induction fs rule: rev_induct)
  case Nil
  show ?case by simp
next
  case (snoc f fs)
  obtain a' acf' where st: "recordFiles pf cfg c fs (a, acf) = (a', acf')"
    by (cases "recordFiles pf cfg c fs (a, acf)")
  with snoc show ?case
    by (simp add: recordFiles_snoc addFile_other)
qed


section \<open>The loop over the commits\<close>

lemma addLines_simps [simp]:
  "fileChanges (addLines i d a) = fileChanges a"
  "commitsByAuthor (addLines i d a) = commitsByAuthor a"
  "totalCommits (addLines i d a) = totalCommits a"
  "fileTypes (addLines i d a) = fileTypes a"
  "additions (lineChanges (addLines i d a)) = additions (lineChanges a) + i"
  "deletions (lineChanges (addLines i d a)) = deletions (lineChanges a) + d"
  by (simp_all add: addLines_def)

lemma countAuthorCommit_simps [simp]:
  "fileChanges (countAuthorCommit c a) = fileChanges a"
  "lineChanges (countAuthorCommit c a) = lineChanges a"
  "totalCommits (countAuthorCommit c a) = totalCommits a"
  "fileTypes (countAuthorCommit c a) = fileTypes a"
  by (simp_all add: countAuthorCommit_def Let_def)

lemma addAuthorLines_simps [simp]:
  "fileChanges (addAuthorLines c s a) = fileChanges a"
  "lineChanges (addAuthorLines c s a) = lineChanges a"
  "totalCommits (addAuthorLines c s a) = totalCommits a"
  "fileTypes (addAuthorLines c s a) = fileTypes a"
  by (simp_all add: addAuthorLines_def)

lemma typeCountsOk_addFile: "typeCountsOk st \<Longrightarrow> typeCountsOk (addFile pf cfg c st f)"
  by (cases st; cases "type f")
     (simp_all add: typeCountsOk_def addFile_def Let_def countChangeType_def countType_def)

lemma typeCountsOk_recordFiles:
  "typeCountsOk st \<Longrightarrow> typeCountsOk (recordFiles pf cfg c fs st)"
  by (induction fs rule: rev_induct) (simp_all add: recordFiles_snoc typeCountsOk_addFile)

lemma typeCountsOk_steps [simp]:
  "typeCountsOk (addLines i d a, acf) = typeCountsOk (a, acf)"
  "typeCountsOk (countAuthorCommit c a, acf) = typeCountsOk (a, acf)"
  "typeCountsOk (addAuthorLines c s a, acf) = typeCountsOk (a, acf)"
  by (simp_all add: typeCountsOk_def)

lemma typeCountsOk_processCommit:
  assumes "typeCountsOk st"
  shows "typeCountsOk (processCommit pf cfg g st c)"
  using assms
  by (cases st)
     (auto simp: processCommit_def Let_def case_prod_beta
           intro!: typeCountsOk_recordFiles split: sum.splits option.splits)

lemma analyzeCommits_snoc:
  "analyzeCommits pf cfg g (cs @ [c]) st = processCommit pf cfg g (analyzeCommits pf cfg g cs st) c"
  by (simp add: analyzeCommits_def)

lemma analyzeCommits_Nil [simp]: "analyzeCommits pf cfg g [] st = st"
  by (simp add: analyzeCommits_def)



lemma typeCountsOk_analyzeCommits:
  "typeCountsOk st \<Longrightarrow> typeCountsOk (analyzeCommits pf cfg g cs st)"
  by (induction cs rule: rev_induct) (simp_all add: analyzeCommits_snoc typeCountsOk_processCommit)

lemma typeCountsOk_initial: "typeCountsOk (initialAnalysis cs, [])"
  by (simp add: typeCountsOk_def initialAnalysis_def countType_def)

lemma finishAnalysis_simps [simp]:
  "fileChanges (finishAnalysis st) = fileChanges (fst st)"
  "lineChanges (finishAnalysis st) = lineChanges (fst st)"
  "totalCommits (finishAnalysis st) = totalCommits (fst st)"
  "fileTypes (finishAnalysis st) = fileTypes (fst st)"
  "commitsByAuthor (finishAnalysis st) = commitsByAuthor (fst st)"
  by (cases st; simp add: finishAnalysis_def Let_def)+

lemma countType_total:
  "countType Added fs + countType Modified fs + countType Deleted fs + countType Renamed fs
     + countType Copied fs + countType Unknown fs = length fs"
proof (induction fs)
  case Nil
  show ?case by (simp add: countType_def)
next
  case (Cons f fs)
  then show ?case by (cases "cf_type f") (simp_all add: countType_def)
qed

lemma sum_update_new:
  "map_of al k = None \<Longrightarrow>
   (\<Sum>e\<leftarrow>AList.update k v al. h (snd e)) = (\<Sum>e\<leftarrow>al. h (snd e)) + (h v :: nat)"
  by (induction al) (auto split: if_splits)

lemma sum_map_entry_same:
  "(\<And>s. h (f s) = h s) \<Longrightarrow>
   (\<Sum>e\<leftarrow>AList.map_entry k f al. h (snd e)) = (\<Sum>e\<leftarrow>al. (h (snd e) :: nat))"
  by (induction al) auto

lemma sum_map_entry_Suc:
  "map_of al k \<noteq> None \<Longrightarrow> (\<And>s. h (f s) = Suc (h s)) \<Longrightarrow>
   (\<Sum>e\<leftarrow>AList.map_entry k f al. h (snd e)) = Suc (\<Sum>e\<leftarrow>al. h (snd e))"
  by (induction al) (auto split: if_splits)

lemma authorCommitSum_countAuthorCommit:
  "authorCommitSum (countAuthorCommit c a) = Suc (authorCommitSum a)"
proof (cases "map_of (commitsByAuthor a) (author c)")
  case None
  have "map_of (AList.update (author c) \<lparr>a_commits = 0, a_additions = 0, a_deletions = 0\<rparr>
            (commitsByAuthor a)) (author c) \<noteq> None"
    by (simp add: update_conv')
  then show ?thesis
    using None
    by (simp add: authorCommitSum_def countAuthorCommit_def sum_map_entry_Suc sum_update_new)
next
  case (Some s)
  then show ?thesis
    by (simp add: authorCommitSum_def countAuthorCommit_def sum_map_entry_Suc)
qed

lemma authorCommitSum_steps [simp]:
  "authorCommitSum (addLines i d a) = authorCommitSum a"
  "authorCommitSum (addAuthorLines c s a) = authorCommitSum a"
  by (simp_all add: authorCommitSum_def addAuthorLines_def sum_map_entry_same)

lemma authorCommitSum_recordFiles [simp]:
  "authorCommitSum (fst (recordFiles pf cfg c fs (a, acf))) = authorCommitSum a"
  by (simp add: authorCommitSum_def recordFiles_other)

lemma authorCommitSum_processCommit:
  "authorCommitSum (fst (processCommit pf cfg g st c)) \<le> Suc (authorCommitSum (fst st))"
  by (cases st)
     (auto simp: processCommit_def Let_def case_prod_beta authorCommitSum_countAuthorCommit
           split: sum.splits option.splits)

lemma totalCommits_recordFiles [simp]:
  "totalCommits (fst (recordFiles pf cfg c fs (a, acf))) = totalCommits a"
  by (simp add: recordFiles_other)

lemma totalCommits_processCommit:
  "totalCommits (fst (processCommit pf cfg g st c)) = totalCommits (fst st)"
  by (cases st)
     (auto simp: processCommit_def Let_def case_prod_beta split: sum.splits option.splits)

lemma totalCommits_analyzeCommits:
  "totalCommits (fst (analyzeCommits pf cfg g cs st)) = totalCommits (fst st)"
  by (induction cs rule: rev_induct) (simp_all add: analyzeCommits_snoc totalCommits_processCommit)

lemma authorCommitSum_analyzeCommits:
  "authorCommitSum (fst (analyzeCommits pf cfg g cs st)) \<le> authorCommitSum (fst st) + length cs"
proof (induction cs rule: rev_induct)
  case Nil
  show ?case by simp
next
  case (snoc c cs)
  have "authorCommitSum (fst (analyzeCommits pf cfg g (cs @ [c]) st))
          \<le> Suc (authorCommitSum (fst (analyzeCommits pf cfg g cs st)))"
    by (simp add: analyzeCommits_snoc authorCommitSum_processCommit)
  with snoc show ?case by simp
qed

lemma authorStatsOf_addLines [simp]: "authorStatsOf (addLines i d a) = authorStatsOf a"
  by (simp add: authorStatsOf_def fun_eq_iff)

lemma authorStatsOf_recordFiles [simp]:
  "authorStatsOf (fst (recordFiles pf cfg c fs (a, acf))) = authorStatsOf a"
  by (simp add: authorStatsOf_def fun_eq_iff recordFiles_other)

lemma authorStatsOf_countAuthorCommit:
  "authorStatsOf (countAuthorCommit c a) au =
     (if au = author c then (authorStatsOf a au)\<lparr>a_commits := a_commits (authorStatsOf a au) + 1\<rparr>
      else authorStatsOf a au)"
  by (auto simp: authorStatsOf_def countAuthorCommit_def map_of_map_entry update_conv' noStats_def
           split: option.splits)

lemma author_present: "map_of (commitsByAuthor (countAuthorCommit c a)) (author c) \<noteq> None"
  by (auto simp: countAuthorCommit_def map_of_map_entry update_conv' split: option.splits)

lemma authorStatsOf_addAuthorLines:
  "map_of (commitsByAuthor a) (author c) \<noteq> None \<Longrightarrow>
   authorStatsOf (addAuthorLines c s a) au =
     (if au = author c
      then (authorStatsOf a au)\<lparr>a_additions := a_additions (authorStatsOf a au) + insertions s,
                               a_deletions := a_deletions (authorStatsOf a au) + stat_deletions s\<rparr>
      else authorStatsOf a au)"
  by (auto simp: authorStatsOf_def addAuthorLines_def map_of_map_entry split: option.splits)

lemma lineChanges_recordFiles [simp]:
  "lineChanges (fst (recordFiles pf cfg c fs (a, acf))) = lineChanges a"
  by (simp add: recordFiles_other)

lemma lineChanges_processCommit:
  "additions (lineChanges (fst (processCommit pf cfg g st c)))
     = additions (lineChanges (fst st)) + fst (commitLineStats g c)
   \<and> deletions (lineChanges (fst (processCommit pf cfg g st c)))
     = deletions (lineChanges (fst st)) + snd (commitLineStats g c)"
  by (cases st)
     (auto simp: processCommit_def commitLineStats_def Let_def case_prod_beta
           split: sum.splits option.splits)

lemma authorStats_processCommit:
  "a_commits (authorStatsOf (fst (processCommit pf cfg g st c)) au)
     = a_commits (authorStatsOf (fst st) au)
       + (if author c = au \<and> classified g c then 1 else 0)
   \<and> a_additions (authorStatsOf (fst (processCommit pf cfg g st c)) au)
     = a_additions (authorStatsOf (fst st) au)
       + (if author c = au \<and> \<not> isFirstCommit c then fst (authorLineStats g c) else 0)
   \<and> a_deletions (authorStatsOf (fst (processCommit pf cfg g st c)) au)
     = a_deletions (authorStatsOf (fst st) au)
       + (if author c = au \<and> \<not> isFirstCommit c then snd (authorLineStats g c) else 0)"
  by (cases st)
     (auto simp: processCommit_def classified_def authorLineStats_def Let_def case_prod_beta
                 authorStatsOf_countAuthorCommit authorStatsOf_addAuthorLines author_present
           split: sum.splits option.splits)

lemma analyzeCommits_lines:
  "additions (lineChanges (fst (analyzeCommits pf cfg g cs st)))
     = additions (lineChanges (fst st)) + (\<Sum>c\<leftarrow>cs. fst (commitLineStats g c))
   \<and> deletions (lineChanges (fst (analyzeCommits pf cfg g cs st)))
     = deletions (lineChanges (fst st)) + (\<Sum>c\<leftarrow>cs. snd (commitLineStats g c))"
  by (induction cs rule: rev_induct) (simp_all add: analyzeCommits_snoc lineChanges_processCommit)

lemma analyzeCommits_authors:
  "a_commits (authorStatsOf (fst (analyzeCommits pf cfg g cs st)) au)
     = a_commits (authorStatsOf (fst st) au)
       + length (filter (\<lambda>c. author c = au \<and> classified g c) cs)
   \<and> a_additions (authorStatsOf (fst (analyzeCommits pf cfg g cs st)) au)
     = a_additions (authorStatsOf (fst st) au)
       + (\<Sum>c\<leftarrow>filter (\<lambda>c. author c = au \<and> \<not> isFirstCommit c) cs. fst (authorLineStats g c))
   \<and> a_deletions (authorStatsOf (fst (analyzeCommits pf cfg g cs st)) au)
     = a_deletions (authorStatsOf (fst st) au)
       + (\<Sum>c\<leftarrow>filter (\<lambda>c. author c = au \<and> \<not> isFirstCommit c) cs. snd (authorLineStats g c))"
  by (induction cs rule: rev_induct) (simp_all add: analyzeCommits_snoc authorStats_processCommit)

lemma authorStatsOf_finish [simp]: "authorStatsOf (finishAnalysis st) = authorStatsOf (fst st)"
  by (simp add: authorStatsOf_def fun_eq_iff)

lemma authorStatsOf_initial [simp]: "authorStatsOf (initialAnalysis cs) au = noStats"
  by (simp add: authorStatsOf_def initialAnalysis_def)












section \<open>The root-commit flag\<close>

lemma findIndexFrom_last:
  assumes "distinct (map h xs)" and "e \<in> set xs"
  shows "findIndexFrom i (\<lambda>c. h c = h e) xs = i + int (length xs) - 1 \<longleftrightarrow> e = last xs"
  using assms
proof (induction xs arbitrary: i)
  case Nil
  then show ?case by simp
next
  case (Cons x xs)
  show ?case
  proof (cases "h x = h e")
    case True
    with Cons.prems have ex: "e = x" by (auto simp: image_iff)
    have "xs \<noteq> [] \<Longrightarrow> last xs \<noteq> x"
      using Cons.prems(1) last_in_set [of xs] by auto
    with True ex show ?thesis by auto
  next
    case False
    with Cons.prems have mem: "e \<in> set xs" by auto
    then have ne: "xs \<noteq> []" by auto
    have "findIndexFrom (i + 1) (\<lambda>c. h c = h e) xs = (i + 1) + int (length xs) - 1 \<longleftrightarrow> e = last xs"
      using Cons.IH [of "i + 1"] Cons.prems(1) mem by simp
    with False ne show ?thesis by simp
  qed
qed

lemma isFirstCommitOf_iff_last:
  assumes "distinct (map le_hash allCommits)" and "e \<in> set allCommits"
  shows "isFirstCommitOf allCommits (le_hash e) \<longleftrightarrow> e = last allCommits"
  using findIndexFrom_last [OF assms, of 0] by (simp add: isFirstCommitOf_def findIndex_def)

section \<open>Distinct paths, counting and sorting\<close>

lemma uniqByFrom_length: "length (uniqByFrom f seen xs) = card (f ` set xs - set seen)"
proof (induction xs arbitrary: seen)
  case Nil
  show ?case by simp
next
  case (Cons x xs)
  show ?case
  proof (cases "f x \<in> set seen")
    case True
    then have "f ` set (x # xs) - set seen = f ` set xs - set seen" by auto
    with True Cons show ?thesis by simp
  next
    case False
    have fin: "finite (f ` set xs - set (f x # seen))" by simp
    have notin: "f x \<notin> f ` set xs - set (f x # seen)" by simp
    have "f ` set (x # xs) - set seen = insert (f x) (f ` set xs - set (f x # seen))"
      using False by auto
    then have "card (f ` set (x # xs) - set seen) = Suc (card (f ` set xs - set (f x # seen)))"
      using fin notin by (simp del: set_simps)
    with False Cons show ?thesis by simp
  qed
qed

lemma uniqBy_length: "length (uniqBy f xs) = card (f ` set xs)"
  by (simp add: uniqBy_def uniqByFrom_length)

lemma totalFilesChanged_finish:
  "totalFilesChanged (finishAnalysis st) = card (cf_path ` set (snd st))"
  by (cases st) (simp add: finishAnalysis_def Let_def uniqBy_length)

lemma card_paths_le: "card (f ` set xs) \<le> length xs"
  by (metis card_length length_map list.set_map)

lemma card_paths_eq_iff: "card (f ` set xs) = length xs \<longleftrightarrow> distinct (map f xs)"
  by (metis card_distinct distinct_card length_map list.set_map)

lemma countBy_snoc: "countBy f (xs @ [x]) = countStep f (countBy f xs) x"
  by (simp add: countBy_def)

lemma countBy_Nil [simp]: "countBy f [] = []"
  by (simp add: countBy_def)

lemma countStep_keys:
  "map fst (countStep f r x) = (if f x \<in> set (map fst r) then map fst r else map fst r @ [f x])"
  by (simp add: countStep_def update_keys split: option.splits)

lemma countStep_map_of:
  "map_of (countStep f r x) = (map_of r)(f x \<mapsto> (case map_of r (f x) of None \<Rightarrow> 1 | Some n \<Rightarrow> n + 1))"
  by (simp add: countStep_def update_conv' split: option.splits)

lemma countBy_keys_set: "fst ` set (countBy f xs) = f ` set xs"
proof (induction xs rule: rev_induct)
  case Nil
  show ?case by simp
next
  case (snoc x xs)
  have "set (map fst (countStep f (countBy f xs) x)) = insert (f x) (set (map fst (countBy f xs)))"
    by (auto simp: countStep_keys)
  with snoc show ?case by (simp add: countBy_snoc)
qed

lemma count_list_absent: "k \<notin> set ys \<Longrightarrow> count_list ys k = 0"
  by (induction ys) auto

lemma countBy_map_of:
  "map_of (countBy f xs) k = (if k \<in> f ` set xs then Some (count_list (map f xs) k) else None)"
proof (induction xs arbitrary: k rule: rev_induct)
  case Nil
  show ?case by simp
next
  case (snoc x xs)
  show ?case
  proof (cases "k = f x")
    case True
    show ?thesis
      using snoc [of "f x"] True
      by (simp add: countBy_snoc countStep_map_of count_list_absent)
  next
    case False
    then show ?thesis
      using snoc [of k] by (simp add: countBy_snoc countStep_map_of)
  qed
qed

lemma firstPos_append_old: "p \<in> set ps \<Longrightarrow> firstPos (ps @ qs) p = firstPos ps p"
  unfolding firstPos_def by (induction ps) auto

lemma firstPos_less: "p \<in> set ps \<Longrightarrow> firstPos ps p < length ps"
  unfolding firstPos_def by (induction ps) auto

lemma firstPos_new: "p \<notin> set ps \<Longrightarrow> firstPos (ps @ [p]) p = length ps"
  unfolding firstPos_def by (induction ps) auto

lemma countBy_keys_sorted:
  "sorted_wrt (\<lambda>p q. firstPos (map f xs) p < firstPos (map f xs) q) (map fst (countBy f xs))"
proof (induction xs rule: rev_induct)
  case Nil
  show ?case by simp
next
  case (snoc x xs)
  let ?ks = "map fst (countBy f xs)"
  let ?ps = "map f xs"
  have keys: "set ?ks = set ?ps" using countBy_keys_set [of f xs] by simp
  have old: "sorted_wrt (\<lambda>p q. firstPos (?ps @ [f x]) p < firstPos (?ps @ [f x]) q) ?ks"
  proof (rule sorted_wrt_mono_rel [OF _ snoc])
    fix p q
    assume "p \<in> set ?ks" and "q \<in> set ?ks" and "firstPos ?ps p < firstPos ?ps q"
    then show "firstPos (?ps @ [f x]) p < firstPos (?ps @ [f x]) q"
      using keys by (simp add: firstPos_append_old)
  qed
  show ?case
  proof (cases "f x \<in> set ?ks")
    case True
    with old show ?thesis by (simp add: countBy_snoc countStep_keys)
  next
    case False
    then have new: "f x \<notin> set ?ps" using keys by simp
    have "\<forall>p\<in>set ?ks. firstPos (?ps @ [f x]) p < firstPos (?ps @ [f x]) (f x)"
    proof
      fix p
      assume "p \<in> set ?ks"
      then have p: "p \<in> set ?ps" using keys by simp
      then have "firstPos ?ps p < length ?ps" by (rule firstPos_less)
      with p new show "firstPos (?ps @ [f x]) p < firstPos (?ps @ [f x]) (f x)"
        by (simp add: firstPos_new firstPos_append_old)
    qed
    with old False show ?thesis
      by (simp add: countBy_snoc countStep_keys sorted_wrt_append)
  qed
qed

lemma countBy_distinct: "distinct (map fst (countBy f xs))"
  by (induction xs rule: rev_induct) (auto simp: countBy_snoc countStep_keys)

lemma insertCmp_byCountDesc:
  "insertCmp byCountDesc x ys = insort_key (\<lambda>e. - int (snd e)) x ys"
  by (induction ys) (auto simp: byCountDesc_def)

lemma sortCmp_byCountDesc: "sortCmp byCountDesc xs = sort_key (\<lambda>e. - int (snd e)) xs"
  by (induction xs) (simp_all add: sortCmp_def insertCmp_byCountDesc)

lemma mset_insertCmp: "mset (insertCmp cmp x ys) = add_mset x (mset ys)"
  by (induction ys) auto

lemma mset_sortCmp: "mset (sortCmp cmp xs) = mset xs"
  by (induction xs) (simp_all add: sortCmp_def mset_insertCmp)

lemma sorted_wrt_insort_key_lex:
  fixes f :: "'a \<Rightarrow> 'k::linorder"
  assumes "sorted_wrt (\<lambda>a b. f a < f b \<or> (f a = f b \<and> B a b)) ys"
    and "\<forall>y\<in>set ys. B x y"
  shows "sorted_wrt (\<lambda>a b. f a < f b \<or> (f a = f b \<and> B a b)) (insort_key f x ys)"
  using assms
proof (induction ys)
  case Nil
  show ?case by simp
next
  case (Cons y ys)
  show ?case
  proof (cases "f x \<le> f y")
    case True
    have "\<forall>z\<in>set (y # ys). f x < f z \<or> (f x = f z \<and> B x z)"
    proof
      fix z
      assume z: "z \<in> set (y # ys)"
      then have "f y \<le> f z" using Cons.prems(1) by auto
      with True have "f x \<le> f z" by simp
      moreover have "B x z" using Cons.prems(2) z by blast
      ultimately show "f x < f z \<or> (f x = f z \<and> B x z)" by auto
    qed
    with True Cons.prems(1) show ?thesis by simp
  next
    case False
    have rest: "sorted_wrt (\<lambda>a b. f a < f b \<or> (f a = f b \<and> B a b)) (insort_key f x ys)"
      using Cons by simp
    have "\<forall>w\<in>set (insort_key f x ys). f y < f w \<or> (f y = f w \<and> B y w)"
      using False Cons.prems(1) by (auto simp: set_insort_key)
    with False rest show ?thesis by simp
  qed
qed

lemma sorted_wrt_sort_key_lex:
  fixes f :: "'a \<Rightarrow> 'k::linorder"
  assumes "sorted_wrt B xs"
  shows "sorted_wrt (\<lambda>a b. f a < f b \<or> (f a = f b \<and> B a b)) (sort_key f xs)"
  using assms
proof (induction xs)
  case Nil
  show ?case by simp
next
  case (Cons x xs)
  then have "sorted_wrt (\<lambda>a b. f a < f b \<or> (f a = f b \<and> B a b)) (sort_key f xs)"
    and "\<forall>y\<in>set (sort_key f xs). B x y"
    by simp_all
  then show ?case
    by (simp add: sorted_wrt_insort_key_lex)
qed

lemma parseNat_inj: "isArrayIndex p \<Longrightarrow> isArrayIndex q \<Longrightarrow> parseNat p = parseNat q \<Longrightarrow> p = q"
  by (metis isArrayIndex_def)

lemma mset_objectEntries: "mset (objectEntries al) = mset al"
  by (simp add: objectEntries_def)

lemma set_objectEntries: "set (objectEntries al) = set al"
  by (auto simp: objectEntries_def)

lemma objectEntries_sorted:
  assumes d: "distinct (map fst al)"
    and s: "sorted_wrt (\<lambda>p q. firstPos ps p < firstPos ps q) (map fst al)"
  shows "sorted_wrt (\<lambda>x y. keyBefore ps (fst x) (fst y)) (objectEntries al)"
proof -
  let ?F = "filter (\<lambda>e. isArrayIndex (fst e)) al"
  let ?A = "sort_key (\<lambda>e. parseNat (fst e)) ?F"
  let ?N = "filter (\<lambda>e. \<not> isArrayIndex (fst e)) al"
  have dF: "distinct (map fst ?F)" using d by (simp add: distinct_map_filter)
  have "inj_on parseNat (set (map fst ?F))"
    by (auto intro!: inj_onI parseNat_inj)
  with dF have "distinct (map parseNat (map fst ?F))"
    by (simp only: distinct_map simp_thms)
  then have "distinct (map (\<lambda>e. parseNat (fst e)) ?F)" by (simp add: comp_def)
  moreover have "mset (map (\<lambda>e. parseNat (fst e)) ?A) = mset (map (\<lambda>e. parseNat (fst e)) ?F)"
    by simp
  ultimately have dA: "distinct (map (\<lambda>e. parseNat (fst e)) ?A)"
    by (metis mset_eq_imp_distinct_iff)
  have "sorted (map (\<lambda>e. parseNat (fst e)) ?A)" by (rule sorted_sort_key)
  with dA have "sorted_wrt (<) (map (\<lambda>e. parseNat (fst e)) ?A)"
    by (simp add: strict_sorted_iff)
  then have sA: "sorted_wrt (\<lambda>x y. parseNat (fst x) < parseNat (fst y)) ?A"
    by (simp add: sorted_wrt_map)
  have allA: "\<forall>x\<in>set ?A. isArrayIndex (fst x)" by auto
  have "sorted_wrt (\<lambda>x y. keyBefore ps (fst x) (fst y)) ?A"
    using sA by (rule sorted_wrt_mono_rel [rotated]) (simp add: keyBefore_def)
  moreover
  have "sorted_wrt (\<lambda>x y. firstPos ps (fst x) < firstPos ps (fst y)) al"
    using s by (simp add: sorted_wrt_map)
  then have "sorted_wrt (\<lambda>x y. firstPos ps (fst x) < firstPos ps (fst y)) ?N"
    by (rule sorted_wrt_filter)
  then have "sorted_wrt (\<lambda>x y. keyBefore ps (fst x) (fst y)) ?N"
    by (rule sorted_wrt_mono_rel [rotated]) (simp add: keyBefore_def)
  moreover have "\<forall>x\<in>set ?A. \<forall>y\<in>set ?N. keyBefore ps (fst x) (fst y)"
    by (simp add: keyBefore_def)
  ultimately show ?thesis
    by (simp add: objectEntries_def sorted_wrt_append)
qed

lemma ranked_sorted:
  "sorted_wrt (rankedBefore (map f xs)) (sortCmp byCountDesc (objectEntries (countBy f xs)))"
proof -
  let ?B = "\<lambda>x y. keyBefore (map f xs) (fst x) (fst y)"
  let ?k = "\<lambda>e :: string \<times> nat. - int (snd e)"
  have "sorted_wrt ?B (objectEntries (countBy f xs))"
    by (rule objectEntries_sorted) (rule countBy_distinct, rule countBy_keys_sorted)
  then have "sorted_wrt (\<lambda>a b. ?k a < ?k b \<or> (?k a = ?k b \<and> ?B a b))
               (sort_key ?k (objectEntries (countBy f xs)))"
    by (rule sorted_wrt_sort_key_lex)
  then show ?thesis
    unfolding sortCmp_byCountDesc
    by (rule sorted_wrt_mono_rel [rotated]) (auto simp: rankedBefore_def)
qed

lemma ranked_set:
  "set (sortCmp byCountDesc (objectEntries (countBy f xs)))
     = (\<lambda>p. (p, count_list (map f xs) p)) ` set (map f xs)"
proof -
  have "set (sortCmp byCountDesc (objectEntries (countBy f xs))) = set (countBy f xs)"
    by (metis mset_sortCmp set_mset_mset set_objectEntries)
  also have "\<dots> = (\<lambda>p. (p, count_list (map f xs) p)) ` set (map f xs)"
  proof (rule set_eqI)
    fix e :: "string \<times> nat"
    obtain p n where e: "e = (p, n)" by (cases e)
    have "(p, n) \<in> set (countBy f xs) \<longleftrightarrow> map_of (countBy f xs) p = Some n"
      using countBy_distinct [of f xs] by simp
    then show "e \<in> set (countBy f xs) \<longleftrightarrow> e \<in> (\<lambda>p. (p, count_list (map f xs) p)) ` set (map f xs)"
      unfolding e by (auto simp: countBy_map_of split: if_splits)
  qed
  finally show ?thesis .
qed

lemma mostChangedFiles_finish:
  "mostChangedFiles (finishAnalysis st)
     = take 5 (sortCmp byCountDesc (objectEntries (countBy cf_path (snd st))))"
  by (cases st) (simp add: finishAnalysis_def Let_def)

lemma top_of_sorted:
  assumes s: "sorted_wrt R xs" and x: "x \<in> set xs" and nx: "x \<notin> set (take n xs)"
  shows "length (take n xs) = n \<and> (\<forall>e\<in>set (take n xs). R e x)"
proof -
  from x nx have xd: "x \<in> set (drop n xs)"
    by (metis Un_iff append_take_drop_id set_append)
  then have "n < length xs" by (cases "n < length xs") auto
  then have len: "length (take n xs) = n" by simp
  have "sorted_wrt R (take n xs @ drop n xs)" using s by simp
  then have "\<forall>e\<in>set (take n xs). \<forall>y\<in>set (drop n xs). R e y"
    by (simp only: sorted_wrt_append) blast
  with xd len show ?thesis by blast
qed

lemma isArrayIndex_examples:
  "isArrayIndex ''1''" "\<not> isArrayIndex ''b''" "\<not> isArrayIndex ''x.ts''" "\<not> isArrayIndex ''y.ts''"
  by (simp_all add: isArrayIndex_def parseNat_def digitVal_def showNat.simps)

text \<open>
  What the analysis computes: the number of distinct paths of the records, which
  is the number of records iff no two records have the same path.
\<close>

lemma totalFilesChanged_distinct_paths:
  assumes "includeCodeAnalysis cfg" and "cs \<noteq> []"
  shows "\<exists>a. analyzeCodeChanges pf cfg g cs = Some a
           \<and> totalFilesChanged a = card (cf_path ` set (changedFilesOf pf cfg g cs))
           \<and> totalFilesChanged a \<le> length (changedFilesOf pf cfg g cs)
           \<and> (totalFilesChanged a = length (changedFilesOf pf cfg g cs)
                \<longleftrightarrow> distinct (map cf_path (changedFilesOf pf cfg g cs)))"
  using assms
  by (simp add: analyzeCodeChanges_def totalFilesChanged_finish changedFilesOf_def
      card_paths_le card_paths_eq_iff)

section \<open>The summary fold\<close>

lemma map_of_addFileType: "map_of (addFileType ft e) = mergeCount e (map_of ft)"
  by (cases e) (simp add: addFileType_def mergeCount_def update_conv')

lemma map_of_addAuthor: "map_of (addAuthor cba e) = mergeAuthor e (map_of cba)"
  by (cases e)
     (auto simp: addAuthor_def mergeAuthor_def addStats_def noStats_def map_of_map_entry
                 update_conv' fun_eq_iff Let_def split: option.splits)

lemma map_of_foldl_addFileType:
  "map_of (foldl addFileType ft es) = fold mergeCount es (map_of ft)"
  by (induction es arbitrary: ft) (simp_all add: map_of_addFileType)

lemma map_of_foldl_addAuthor:
  "map_of (foldl addAuthor cba es) = fold mergeAuthor es (map_of cba)"
  by (induction es arbitrary: cba) (simp_all add: map_of_addAuthor)

lemma mergeCount_commute: "mergeCount e1 \<circ> mergeCount e2 = mergeCount e2 \<circ> mergeCount e1"
  by (cases e1; cases e2) (auto simp: mergeCount_def fun_eq_iff orZero_def)

lemma addStats_assoc_commute: "addStats (addStats s t) u = addStats (addStats s u) t"
  by (simp add: addStats_def)

lemma mergeAuthor_commute: "mergeAuthor e1 \<circ> mergeAuthor e2 = mergeAuthor e2 \<circ> mergeAuthor e1"
  by (cases e1; cases e2) (auto simp: mergeAuthor_def fun_eq_iff addStats_assoc_commute)

lemma fold_commuting_swap:
  assumes "\<And>x y. f x \<circ> f y = f y \<circ> f x"
  shows "fold f xs (fold f ys m) = fold f ys (fold f xs m)"
proof -
  have "fold f (ys @ xs) = fold f (xs @ ys)"
    by (rule fold_multiset_equiv) (simp_all add: assms)
  then have "fold f (ys @ xs) m = fold f (xs @ ys) m" by simp
  then show ?thesis by simp
qed

lemma fold_objectEntries:
  assumes "\<And>x y. f x \<circ> f y = f y \<circ> f x"
  shows "fold f (objectEntries al) = fold f al"
  by (rule fold_multiset_equiv) (simp_all add: assms mset_objectEntries)

lemma addFileChanges_swap:
  "addFileChanges (addFileChanges x y) z = addFileChanges (addFileChanges x z) y"
  by (simp add: addFileChanges_def)

lemma summaryView_addRepo: "summaryView (addRepo s r) = viewAddRepo r (summaryView s)"
  by (simp add: addRepo_def summaryView_def viewAddRepo_def Let_def
      map_of_foldl_addFileType map_of_foldl_addAuthor
      fold_objectEntries [OF mergeCount_commute] fold_objectEntries [OF mergeAuthor_commute]
      split: option.splits)

lemma viewAddRepo_commute: "viewAddRepo r1 \<circ> viewAddRepo r2 = viewAddRepo r2 \<circ> viewAddRepo r1"
proof
  fix v :: summaryView
  obtain tc tf ta td cba ft fc where v: "v = (tc, tf, ta, td, cba, ft, fc)"
    by (cases v)
  have ft: "\<And>xs ys. fold mergeCount xs (fold mergeCount ys ft) = fold mergeCount ys (fold mergeCount xs ft)"
    by (rule fold_commuting_swap) (rule mergeCount_commute)
  have cba: "\<And>xs ys. fold mergeAuthor xs (fold mergeAuthor ys cba) = fold mergeAuthor ys (fold mergeAuthor xs cba)"
    by (rule fold_commuting_swap) (rule mergeAuthor_commute)
  show "(viewAddRepo r1 \<circ> viewAddRepo r2) v = (viewAddRepo r2 \<circ> viewAddRepo r1) v"
  proof (cases "analysis r1")
    case None
    then show ?thesis
      unfolding v by (simp add: viewAddRepo_def split: option.splits)
  next
    case s1: (Some a1)
    show ?thesis
    proof (cases "analysis r2")
      case None
      with s1 show ?thesis
        unfolding v by (simp add: viewAddRepo_def)
    next
      case (Some a2)
      with s1 show ?thesis
        unfolding v
        by (simp add: viewAddRepo_def addFileChanges_swap [of fc]
            ft [of "fileTypes a1" "fileTypes a2"]
            cba [of "commitsByAuthor a1" "commitsByAuthor a2"])
    qed
  qed
qed

lemma summaryView_foldl:
  "summaryView (foldl addRepo s rs) = fold viewAddRepo rs (summaryView s)"
  by (induction rs arbitrary: s) (simp_all add: summaryView_addRepo)

lemma summaryView_permuted:
  assumes "mset rs = mset rs'"
  shows "summaryView (generateSummaryStats rs) = summaryView (generateSummaryStats rs')"
proof -
  have "fold viewAddRepo rs = fold viewAddRepo rs'"
    by (rule fold_multiset_equiv) (simp_all add: viewAddRepo_commute assms)
  then show ?thesis
    by (simp add: generateSummaryStats_def summaryView_foldl)
qed

lemma generateRepoReport_no_commits:
  "commits (generateRepoReport pf cfg g p) = [] \<Longrightarrow> analysis (generateRepoReport pf cfg g p) = None"
  by (auto simp: generateRepoReport_def Let_def split: if_splits)

lemma generateRepoReport_no_head:
  "\<not> hasAnyCommits (revParseHead g) \<Longrightarrow> commits (generateRepoReport pf cfg g p) = []"
  by (simp add: generateRepoReport_def getRepositoryInfo_def Let_def)

lemma generateRepoReport_disabled:
  "\<not> includeCodeAnalysis cfg \<Longrightarrow> analysis (generateRepoReport pf cfg g p) = None"
  by (simp add: generateRepoReport_def analyzeCodeChanges_def Let_def)

lemma addRepo_null:
  "analysis r = None \<Longrightarrow> addRepo s r = s\<lparr>s_totalCommits := s_totalCommits s + length (commits r)\<rparr>"
  by (simp add: addRepo_def Let_def)

lemma generateFullReport_drop:
  assumes "commits (generateRepoReport pf cfg (simpleGit p) p) = []"
  shows "generateFullReport pf cfg simpleGit (ps @ p # qs)
           = (generateFullReport pf cfg simpleGit (ps @ qs))\<lparr>totalRepos := length (ps @ p # qs)\<rparr>"
  using assms by (simp add: generateFullReport_def Let_def)

section \<open>Evaluation of the examples\<close>

lemma examplePlatform_simps:
  "extname examplePlatform = dotSuffix"
  "toLowerCase examplePlatform = (\<lambda>s. s)"
  "basename examplePlatform = (\<lambda>p. p)"
  "getReportStartDate examplePlatform = 10"
  "getReportEndDate examplePlatform = 20"
  by (simp_all add: examplePlatform_def)

lemma isArrayIndex_keys:
  "\<not> isArrayIndex ''.ts''" "\<not> isArrayIndex ''.go''" "\<not> isArrayIndex ''ann''" "\<not> isArrayIndex ''bob''"
  by (simp_all add: isArrayIndex_def parseNat_def digitVal_def showNat.simps)

lemmas summary_defs =
  generateSummaryStats_def addRepo_def emptySummary_def addFileType_def addAuthor_def
  addFileChanges_def objectEntries_def orZero_def isArrayIndex_keys

lemmas report_defs =
  generateFullReport_def generateRepoReport_def getRepositoryInfo_def
  getCommitsInDateRange_def hasAnyCommits_def toCommit_def isFirstCommitOf_def findIndex_def
  trim_def isWhiteSpace_def exampleRepos_def historyGit_def example_history_def workGit_def
  failingGit_def exampleConfig_def analysisOffConfig_def examplePlatform_simps
  isDateInReportRange_def analyzeCodeChanges_def generateSummaryStats_def addRepo_def
  emptySummary_def sortCmp_def byCommitsDesc_def errorInfo_def getCurrentBranch_def

section \<open>Claims about the analyzer\<close>

text \<open>
  C10.  For every non-empty commit list analysed with code analysis enabled, the
  analysis record exists, its \<open>totalCommits\<close> is the length of the commit list
  whatever the repository answers (also when classifications fail), and the
  commit counts of all authors together do not exceed it.
\<close>

theorem totalCommits_is_length:
  assumes "includeCodeAnalysis cfg" and "cs \<noteq> []"
  shows "\<exists>a. analyzeCodeChanges pf cfg g cs = Some a
           \<and> totalCommits a = length cs
           \<and> (\<Sum>e\<leftarrow>commitsByAuthor a. a_commits (snd e)) \<le> totalCommits a"
proof -
  let ?st = "analyzeCommits pf cfg g cs (initialAnalysis cs, [])"
  have some: "analyzeCodeChanges pf cfg g cs = Some (finishAnalysis ?st)"
    using assms by (simp add: analyzeCodeChanges_def)
  have total: "totalCommits (finishAnalysis ?st) = length cs"
    by (simp add: totalCommits_analyzeCommits initialAnalysis_def)
  have "authorCommitSum (fst ?st) \<le> authorCommitSum (initialAnalysis cs) + length cs"
    using authorCommitSum_analyzeCommits [of pf cfg g cs "(initialAnalysis cs, [])"] by simp
  then have "(\<Sum>e\<leftarrow>commitsByAuthor (finishAnalysis ?st). a_commits (snd e)) \<le> length cs"
    by (simp add: authorCommitSum_def initialAnalysis_def)
  with some total show ?thesis by simp
qed

theorem totalCommits_is_length_witness:
  "includeCodeAnalysis exampleConfig
   \<and> [commitBy ''c1'' ''ann'' True, commitBy ''c2'' ''bob'' False] \<noteq> []
   \<and> map_option totalCommits
        (analyzeCodeChanges examplePlatform exampleConfig failingGit
           [commitBy ''c1'' ''ann'' True, commitBy ''c2'' ''bob'' False]) = Some 2
   \<and> map_option commitsByAuthor
        (analyzeCodeChanges examplePlatform exampleConfig failingGit
           [commitBy ''c1'' ''ann'' True, commitBy ''c2'' ''bob'' False]) = Some []"
  using totalCommits_is_length [of exampleConfig "[commitBy ''c1'' ''ann'' True, commitBy ''c2'' ''bob'' False]" examplePlatform failingGit]
  by (simp add: eval_defs)






text \<open>
  C2 as stated fails: a commit that copies a file produces one file-change
  record, of type \<open>Copied\<close>, and no counter moves, so the counters do not add up to
  the number of records.
\<close>

theorem changeTypeCounts_counterexample:
  "map cf_type (changedFilesOf examplePlatform exampleConfig copyGit [commitBy ''c2'' ''ann'' False])
     = [Copied]
   \<and> map_option fileChanges
        (analyzeCodeChanges examplePlatform exampleConfig copyGit [commitBy ''c2'' ''ann'' False])
     = Some \<lparr>added = 0, modified = 0, deleted = 0, renamed = 0\<rparr>"
  by (simp add: eval_defs copyGit_def)

text \<open>
  C2, amended.  The change-type counters are incremented once per file-change
  record of type \<open>Added\<close>, \<open>Modified\<close>, \<open>Deleted\<close> or \<open>Renamed\<close>, by the record's
  type; records of type \<open>Copied\<close> or \<open>Unknown\<close> are not counted.  So each counter
  is the number of records of its type, and the four counters together with the
  numbers of copied and unknown records make the number of records.
\<close>

theorem changeTypeCounts_four_types:
  assumes "includeCodeAnalysis cfg" and "cs \<noteq> []"
  shows "\<exists>a. analyzeCodeChanges pf cfg g cs = Some a
           \<and> added (fileChanges a) = countType Added (changedFilesOf pf cfg g cs)
           \<and> modified (fileChanges a) = countType Modified (changedFilesOf pf cfg g cs)
           \<and> deleted (fileChanges a) = countType Deleted (changedFilesOf pf cfg g cs)
           \<and> renamed (fileChanges a) = countType Renamed (changedFilesOf pf cfg g cs)
           \<and> added (fileChanges a) + modified (fileChanges a) + deleted (fileChanges a)
               + renamed (fileChanges a)
               + countType Copied (changedFilesOf pf cfg g cs)
               + countType Unknown (changedFilesOf pf cfg g cs)
             = length (changedFilesOf pf cfg g cs)"
proof -
  let ?st = "analyzeCommits pf cfg g cs (initialAnalysis cs, [])"
  have some: "analyzeCodeChanges pf cfg g cs = Some (finishAnalysis ?st)"
    using assms by (simp add: analyzeCodeChanges_def)
  have ok: "typeCountsOk ?st"
    by (rule typeCountsOk_analyzeCommits) (rule typeCountsOk_initial)
  have total: "countType Added (snd ?st) + countType Modified (snd ?st)
      + countType Deleted (snd ?st) + countType Renamed (snd ?st)
      + countType Copied (snd ?st) + countType Unknown (snd ?st) = length (snd ?st)"
    by (rule countType_total)
  show ?thesis
    using some ok total by (simp add: typeCountsOk_def changedFilesOf_def)
qed

theorem changeTypeCounts_four_types_witness:
  "includeCodeAnalysis exampleConfig
   \<and> [commitBy ''c1'' ''ann'' True, commitBy ''c2'' ''ann'' False] \<noteq> []
   \<and> map_option fileChanges
        (analyzeCodeChanges examplePlatform exampleConfig workGit
           [commitBy ''c1'' ''ann'' True, commitBy ''c2'' ''ann'' False])
     = Some \<lparr>added = 2, modified = 1, deleted = 0, renamed = 0\<rparr>
   \<and> map cf_type (changedFilesOf examplePlatform exampleConfig workGit
           [commitBy ''c1'' ''ann'' True, commitBy ''c2'' ''ann'' False])
     = [Added, Modified, Added]"
  using changeTypeCounts_four_types
    [of exampleConfig "[commitBy ''c1'' ''ann'' True, commitBy ''c2'' ''ann'' False]"
        examplePlatform workGit]
  by (simp add: eval_defs workGit_def)

text \<open>
  C4.  \<open>lineChanges\<close> is the sum of the additions and deletions of the diff
  stats of every commit of the list, root or not; an author's additions and
  deletions are summed over the author's non-root commits only, while the
  author's commit count counts every classified commit of the author, root
  commits included.
\<close>

theorem lineChanges_all_commits_authors_non_root_only:
  assumes "includeCodeAnalysis cfg" and "cs \<noteq> []"
  shows "\<exists>a. analyzeCodeChanges pf cfg g cs = Some a
       \<and> additions (lineChanges a) = (\<Sum>c\<leftarrow>cs. fst (commitLineStats g c))
       \<and> deletions (lineChanges a) = (\<Sum>c\<leftarrow>cs. snd (commitLineStats g c))
       \<and> a_commits (authorStatsOf a au)
           = length (filter (\<lambda>c. author c = au \<and> classified g c) cs)
       \<and> a_additions (authorStatsOf a au)
           = (\<Sum>c\<leftarrow>filter (\<lambda>c. author c = au \<and> \<not> isFirstCommit c) cs. fst (authorLineStats g c))
       \<and> a_deletions (authorStatsOf a au)
           = (\<Sum>c\<leftarrow>filter (\<lambda>c. author c = au \<and> \<not> isFirstCommit c) cs. snd (authorLineStats g c))"
proof -
  let ?st = "analyzeCommits pf cfg g cs (initialAnalysis cs, [])"
  have some: "analyzeCodeChanges pf cfg g cs = Some (finishAnalysis ?st)"
    using assms by (simp add: analyzeCodeChanges_def)
  have init: "lineChanges (initialAnalysis cs) = \<lparr>additions = 0, deletions = 0\<rparr>"
    by (simp add: initialAnalysis_def)
  show ?thesis
    unfolding some
    using analyzeCommits_lines [of pf cfg g cs "(initialAnalysis cs, [])"]
      analyzeCommits_authors [of pf cfg g cs "(initialAnalysis cs, [])" au]
    by (simp add: init noStats_def)
qed

theorem lineChanges_all_commits_authors_non_root_only_witness:
  "includeCodeAnalysis exampleConfig
   \<and> [commitBy ''c1'' ''ann'' True, commitBy ''c2'' ''ann'' False] \<noteq> []
   \<and> map_option lineChanges
        (analyzeCodeChanges examplePlatform exampleConfig workGit
           [commitBy ''c1'' ''ann'' True, commitBy ''c2'' ''ann'' False])
     = Some \<lparr>additions = 14, deletions = 1\<rparr>
   \<and> map_option commitsByAuthor
        (analyzeCodeChanges examplePlatform exampleConfig workGit
           [commitBy ''c1'' ''ann'' True, commitBy ''c2'' ''ann'' False])
     = Some [(''ann'', \<lparr>a_commits = 2, a_additions = 4, a_deletions = 1\<rparr>)]
   \<and> map (commitLineStats workGit) [commitBy ''c1'' ''ann'' True, commitBy ''c2'' ''ann'' False]
     = [(10, 0), (4, 1)]"
  using lineChanges_all_commits_authors_non_root_only
    [of exampleConfig "[commitBy ''c1'' ''ann'' True, commitBy ''c2'' ''ann'' False]"
        examplePlatform workGit "''ann''"]
  by (simp add: eval_defs workGit_def)

text \<open>
  C5.  Claim: \<open>totalFilesChanged\<close> is the number of distinct paths of the
  file-change records, at most the number of records, with equality iff every
  changed path is touched by exactly one commit.  The code breaks the last part
  on a root commit: the tree listing of \<open>flatTreeGit\<close> is the one git prints for a
  commit that adds \<open>a.go\<close> and \<open>b.md\<close>, both records get the empty path, and the
  analysis counts one changed file where one commit touches two.
\<close>

theorem totalFilesChanged_of_root_listing:
  "map cf_path (changedFilesOf examplePlatform exampleConfig flatTreeGit [commitBy ''c1'' ''ann'' True])
     = ['''', '''']
   \<and> length (changedFilesOf examplePlatform exampleConfig flatTreeGit [commitBy ''c1'' ''ann'' True])
     = 2
   \<and> everyPathInOneCommit
        (changedFilesOf examplePlatform exampleConfig flatTreeGit [commitBy ''c1'' ''ann'' True])
   \<and> map_option totalFilesChanged
        (analyzeCodeChanges examplePlatform exampleConfig flatTreeGit [commitBy ''c1'' ''ann'' True])
     = Some 1"
  by (simp add: eval_defs flatTreeGit_def workGit_def everyPathInOneCommit_def)

text \<open>
  The guard of \<open>analyzeCodeChanges\<close> lets this input through: code analysis is
  enabled and the commit list is not empty.
\<close>

theorem totalFilesChanged_of_root_listing_witness:
  "includeCodeAnalysis exampleConfig
   \<and> [commitBy ''c1'' ''ann'' True] \<noteq> []
   \<and> map_option totalFilesChanged
        (analyzeCodeChanges examplePlatform exampleConfig flatTreeGit [commitBy ''c1'' ''ann'' True])
     = Some 1"
  using totalFilesChanged_of_root_listing by (simp add: exampleConfig_def)

text \<open>
  C6 as stated fails in its tie-break: in \<open>digitsGit\<close> the path \<open>b\<close> appears before
  the path \<open>1\<close> and both are changed once, but \<open>Object.entries\<close> lists the key \<open>1\<close>,
  an array index, first, and the stable sort keeps it first.
\<close>

theorem mostChangedFiles_counterexample:
  "map cf_path (changedFilesOf examplePlatform exampleConfig digitsGit [commitBy ''c2'' ''ann'' False])
     = [''b'', ''1'']
   \<and> map_option mostChangedFiles
        (analyzeCodeChanges examplePlatform exampleConfig digitsGit [commitBy ''c2'' ''ann'' False])
     = Some [(''1'', 1), (''b'', 1)]"
  by (simp add: eval_defs digitsGit_def workGit_def isArrayIndex_examples)

text \<open>
  C6, amended.  The list of the most changed files has at most five entries;
  each entry is a path of the records with its number of records; the entries
  are in descending order of that number, and entries with equal numbers are in
  the order of \<open>Object.entries\<close>: paths that are array indices first, in ascending
  numeric order, then the other paths in the order of their first appearance
  in the commit sequence.  A path that is not in the list has five entries
  ranked before it.
\<close>

theorem mostChangedFiles_top_five:
  assumes "includeCodeAnalysis cfg" and "cs \<noteq> []"
  shows "\<exists>a. analyzeCodeChanges pf cfg g cs = Some a
           \<and> length (mostChangedFiles a) \<le> 5
           \<and> sorted_wrt (rankedBefore (map cf_path (changedFilesOf pf cfg g cs))) (mostChangedFiles a)
           \<and> (\<forall>e\<in>set (mostChangedFiles a).
                 fst e \<in> set (map cf_path (changedFilesOf pf cfg g cs))
                 \<and> snd e = count_list (map cf_path (changedFilesOf pf cfg g cs)) (fst e))
           \<and> (\<forall>p\<in>set (map cf_path (changedFilesOf pf cfg g cs)).
                 p \<in> fst ` set (mostChangedFiles a)
                 \<or> (length (mostChangedFiles a) = 5
                     \<and> (\<forall>e\<in>set (mostChangedFiles a).
                           rankedBefore (map cf_path (changedFilesOf pf cfg g cs)) e
                             (p, count_list (map cf_path (changedFilesOf pf cfg g cs)) p))))"
proof -
  let ?files = "changedFilesOf pf cfg g cs"
  let ?ps = "map cf_path ?files"
  let ?L = "sortCmp byCountDesc (objectEntries (countBy cf_path ?files))"
  let ?a = "finishAnalysis (analyzeCommits pf cfg g cs (initialAnalysis cs, []))"
  have some: "analyzeCodeChanges pf cfg g cs = Some ?a"
    using assms by (simp add: analyzeCodeChanges_def)
  have top: "mostChangedFiles ?a = take 5 ?L"
    by (simp add: mostChangedFiles_finish changedFilesOf_def)
  have sorted: "sorted_wrt (rankedBefore ?ps) ?L" by (rule ranked_sorted)
  have setL: "set ?L = (\<lambda>p. (p, count_list ?ps p)) ` set ?ps" by (rule ranked_set)
  have c1: "length (take 5 ?L) \<le> 5" by simp
  have c2: "sorted_wrt (rankedBefore ?ps) (take 5 ?L)"
    using sorted by (rule sorted_wrt_take)
  have c3: "\<forall>e\<in>set (take 5 ?L). fst e \<in> set ?ps \<and> snd e = count_list ?ps (fst e)"
  proof
    fix e
    assume "e \<in> set (take 5 ?L)"
    then have "e \<in> set ?L" by (rule in_set_takeD)
    then show "fst e \<in> set ?ps \<and> snd e = count_list ?ps (fst e)"
      unfolding setL by auto
  qed
  have c4: "\<forall>p\<in>set ?ps. p \<in> fst ` set (take 5 ?L)
              \<or> (length (take 5 ?L) = 5
                  \<and> (\<forall>e\<in>set (take 5 ?L). rankedBefore ?ps e (p, count_list ?ps p)))"
  proof
    fix p
    assume p: "p \<in> set ?ps"
    then have mem: "(p, count_list ?ps p) \<in> set ?L" unfolding setL by blast
    show "p \<in> fst ` set (take 5 ?L)
            \<or> (length (take 5 ?L) = 5
                \<and> (\<forall>e\<in>set (take 5 ?L). rankedBefore ?ps e (p, count_list ?ps p)))"
    proof (cases "(p, count_list ?ps p) \<in> set (take 5 ?L)")
      case True
      then have "p \<in> fst ` set (take 5 ?L)" by force
      then show ?thesis ..
    next
      case False
      from top_of_sorted [OF sorted mem False] show ?thesis ..
    qed
  qed
  note c = c1 [folded top] c2 [folded top] c3 [folded top] c4 [folded top]
  from some c show ?thesis by (intro exI [of _ ?a] conjI)
qed

theorem mostChangedFiles_top_five_witness:
  "includeCodeAnalysis exampleConfig
   \<and> [commitBy ''c1'' ''ann'' True, commitBy ''c2'' ''ann'' False] \<noteq> []
   \<and> map_option mostChangedFiles
        (analyzeCodeChanges examplePlatform exampleConfig workGit
           [commitBy ''c1'' ''ann'' True, commitBy ''c2'' ''ann'' False])
     = Some [(''x.ts'', 2), (''y.ts'', 1)]
   \<and> map cf_path (changedFilesOf examplePlatform exampleConfig workGit
           [commitBy ''c1'' ''ann'' True, commitBy ''c2'' ''ann'' False])
     = [''x.ts'', ''x.ts'', ''y.ts'']"
  using mostChangedFiles_top_five
    [of exampleConfig "[commitBy ''c1'' ''ann'' True, commitBy ''c2'' ''ann'' False]"
        examplePlatform workGit]
  by (simp add: eval_defs workGit_def isArrayIndex_examples)

section \<open>Claims about the history reader\<close>

text \<open>
  C9.  For every non-empty history (newest first, its hashes distinct) that the
  reader retrieves, the result is the window-filtered sublist of the history,
  and the root-commit flag of each of its commits is true iff the commit is the
  last entry of the full, unfiltered history.  In the example after the theorem
  the last commit of the filtered list, \<open>c2\<close>, is not the root commit and is
  not flagged.
\<close>

theorem isFirstCommit_iff_last_of_full_history:
  assumes "hasAnyCommits (revParseHeadAgain g)"
    and "log g = Inr allCommits"
    and "allCommits \<noteq> []"
    and "distinct (map le_hash allCommits)"
  shows "getCommitsInDateRange pf g =
           map (\<lambda>e. \<lparr>hash = le_hash e, date = formatDate pf (le_date e), message = le_message e,
                      author = le_author_name e, email = le_author_email e,
                      isFirstCommit = (e = last allCommits)\<rparr>)
             (filter (\<lambda>e. isDateInReportRange pf (le_date e)) allCommits)"
  using assms
  by (simp add: getCommitsInDateRange_def toCommit_def isFirstCommitOf_iff_last)

theorem isFirstCommit_iff_last_of_full_history_witness:
  "hasAnyCommits (revParseHeadAgain historyGit)
   \<and> log historyGit = Inr example_history
   \<and> example_history \<noteq> []
   \<and> distinct (map le_hash example_history)
   \<and> map (\<lambda>c. (hash c, isFirstCommit c)) (getCommitsInDateRange examplePlatform historyGit)
       = [(''c3'', False), (''c2'', False)]
   \<and> map (\<lambda>c. (hash c, isFirstCommit c))
         (getCommitsInDateRange (examplePlatform\<lparr>getReportStartDate := 0\<rparr>) historyGit)
       = [(''c3'', False), (''c2'', False), (''c1'', True)]
   \<and> le_hash (last example_history) = ''c1''"
  using isFirstCommit_iff_last_of_full_history [of historyGit example_history examplePlatform]
  by (simp add: historyGit_def example_history_def workGit_def failingGit_def hasAnyCommits_def
      trim_def isWhiteSpace_def getCommitsInDateRange_def toCommit_def isFirstCommitOf_def
      findIndex_def isDateInReportRange_def examplePlatform_def)

section \<open>Claims about the reports and the summary\<close>

text \<open>
  C7.  For every sequence of repository reports and every permutation of it,
  folding the reports into the summary gives the same totals, the same
  change-type counters and the same maps from keys to values for \<open>fileTypes\<close> and
  \<open>commitsByAuthor\<close>.  (The order of the keys inside the two objects follows the
  order of the reports, as the example after the theorem shows; the maps are
  equal.)
\<close>

theorem summary_order_independent:
  assumes "mset rs = mset rs'"
  shows "s_totalCommits (generateSummaryStats rs) = s_totalCommits (generateSummaryStats rs')
       \<and> s_totalFilesChanged (generateSummaryStats rs) = s_totalFilesChanged (generateSummaryStats rs')
       \<and> totalAdditions (generateSummaryStats rs) = totalAdditions (generateSummaryStats rs')
       \<and> totalDeletions (generateSummaryStats rs) = totalDeletions (generateSummaryStats rs')
       \<and> map_of (s_fileTypes (generateSummaryStats rs)) = map_of (s_fileTypes (generateSummaryStats rs'))
       \<and> s_fileChanges (generateSummaryStats rs) = s_fileChanges (generateSummaryStats rs')
       \<and> map_of (s_commitsByAuthor (generateSummaryStats rs))
           = map_of (s_commitsByAuthor (generateSummaryStats rs'))"
  using summaryView_permuted [OF assms] by (simp add: summaryView_def)

theorem summary_order_independent_witness:
  "mset [reportA, reportB] = mset [reportB, reportA]
   \<and> s_fileTypes (generateSummaryStats [reportA, reportB]) = [(''.ts'', 3), (''.go'', 1)]
   \<and> s_fileTypes (generateSummaryStats [reportB, reportA]) = [(''.go'', 1), (''.ts'', 3)]
   \<and> s_totalCommits (generateSummaryStats [reportA, reportB]) = 3
   \<and> s_totalCommits (generateSummaryStats [reportB, reportA]) = 3
   \<and> map_of (s_commitsByAuthor (generateSummaryStats [reportA, reportB])) ''ann''
       = Some \<lparr>a_commits = 2, a_additions = 1, a_deletions = 2\<rparr>
   \<and> map_of (s_commitsByAuthor (generateSummaryStats [reportB, reportA])) ''ann''
       = Some \<lparr>a_commits = 2, a_additions = 1, a_deletions = 2\<rparr>"
  using summary_order_independent [of "[reportA, reportB]" "[reportB, reportA]"]
  unfolding generateSummaryStats_def addRepo_def Let_def
  by (simp add: summary_defs reportA_def reportB_def commitBy_def)

text \<open>
  C8 as stated fails for a run with code analysis disabled: the repository has
  two commits in the window, its analysis is null, and it still adds its two
  commits to the \<open>totalCommits\<close> of the summary.
\<close>

theorem null_analysis_counterexample:
  "analysis (generateRepoReport examplePlatform (exampleConfig\<lparr>includeCodeAnalysis := False\<rparr>)
       historyGit ''repo'') = None
   \<and> s_totalCommits (summaryOf (generateFullReport examplePlatform
         (exampleConfig\<lparr>includeCodeAnalysis := False\<rparr>) (\<lambda>p. historyGit) [''repo''])) = 2
   \<and> s_totalCommits (summaryOf (generateFullReport examplePlatform
         (exampleConfig\<lparr>includeCodeAnalysis := False\<rparr>) (\<lambda>p. historyGit) [])) = 0"
  by (simp add: generateFullReport_def generateRepoReport_def getRepositoryInfo_def
      getCommitsInDateRange_def hasAnyCommits_def trim_def isWhiteSpace_def
      historyGit_def example_history_def workGit_def failingGit_def exampleConfig_def
      examplePlatform_simps isDateInReportRange_def analyzeCodeChanges_def
      generateSummaryStats_def addRepo_def emptySummary_def sortCmp_def Let_def)

text \<open>
  C8, amended.  The analysis of a repository is null when it has no commit in the
  window (in particular when its head cannot be resolved) and when code analysis
  is disabled.  A repository with no commit in the window adds nothing to the
  summary and is not among the reported repositories, but is counted in
  \<open>totalRepos\<close>, which is the number of repository paths.  A report whose analysis
  is null adds the number of its commits to the \<open>totalCommits\<close> of the summary and
  nothing else.
\<close>

theorem null_analysis_contribution:
  "(commits (generateRepoReport pf cfg g p) = [] \<longrightarrow>
      analysis (generateRepoReport pf cfg g p) = None)
   \<and> (\<not> hasAnyCommits (revParseHead g) \<longrightarrow> commits (generateRepoReport pf cfg g p) = [])
   \<and> (\<not> includeCodeAnalysis cfg \<longrightarrow> analysis (generateRepoReport pf cfg g p) = None)
   \<and> (commits (generateRepoReport pf cfg (simpleGit p) p) = [] \<longrightarrow>
        summaryOf (generateFullReport pf cfg simpleGit (ps @ p # qs))
          = summaryOf (generateFullReport pf cfg simpleGit (ps @ qs))
        \<and> repositories (generateFullReport pf cfg simpleGit (ps @ p # qs))
          = repositories (generateFullReport pf cfg simpleGit (ps @ qs))
        \<and> totalRepos (generateFullReport pf cfg simpleGit (ps @ p # qs))
          = Suc (totalRepos (generateFullReport pf cfg simpleGit (ps @ qs))))
   \<and> (analysis r = None \<longrightarrow>
        addRepo s r = s\<lparr>s_totalCommits := s_totalCommits s + length (commits r)\<rparr>)
   \<and> totalRepos (generateFullReport pf cfg simpleGit paths) = length paths"
proof -
  have "commits (generateRepoReport pf cfg (simpleGit p) p) = [] \<longrightarrow>
        summaryOf (generateFullReport pf cfg simpleGit (ps @ p # qs))
          = summaryOf (generateFullReport pf cfg simpleGit (ps @ qs))
        \<and> repositories (generateFullReport pf cfg simpleGit (ps @ p # qs))
          = repositories (generateFullReport pf cfg simpleGit (ps @ qs))
        \<and> totalRepos (generateFullReport pf cfg simpleGit (ps @ p # qs))
          = Suc (totalRepos (generateFullReport pf cfg simpleGit (ps @ qs)))"
  proof
    assume "commits (generateRepoReport pf cfg (simpleGit p) p) = []"
    then have "generateFullReport pf cfg simpleGit (ps @ p # qs)
           = (generateFullReport pf cfg simpleGit (ps @ qs))\<lparr>totalRepos := length (ps @ p # qs)\<rparr>"
      by (rule generateFullReport_drop)
    then show "summaryOf (generateFullReport pf cfg simpleGit (ps @ p # qs))
          = summaryOf (generateFullReport pf cfg simpleGit (ps @ qs))
        \<and> repositories (generateFullReport pf cfg simpleGit (ps @ p # qs))
          = repositories (generateFullReport pf cfg simpleGit (ps @ qs))
        \<and> totalRepos (generateFullReport pf cfg simpleGit (ps @ p # qs))
          = Suc (totalRepos (generateFullReport pf cfg simpleGit (ps @ qs)))"
      by (simp add: generateFullReport_def Let_def)
  qed
  moreover have "totalRepos (generateFullReport pf cfg simpleGit paths) = length paths"
    by (simp add: generateFullReport_def Let_def)
  ultimately show ?thesis
    using generateRepoReport_no_commits [of pf cfg g p] generateRepoReport_no_head [of g pf cfg p]
      generateRepoReport_disabled [of cfg pf g p] addRepo_null [of r s]
    by blast
qed

theorem null_analysis_contribution_witness:
  "commits (generateRepoReport examplePlatform analysisOffConfig (exampleRepos ''empty'') ''empty'') = []
   \<and> \<not> hasAnyCommits (revParseHead (exampleRepos ''empty''))
   \<and> \<not> includeCodeAnalysis analysisOffConfig
   \<and> analysis (generateRepoReport examplePlatform analysisOffConfig (exampleRepos ''repo'') ''repo'') = None
   \<and> length (commits (generateRepoReport examplePlatform analysisOffConfig (exampleRepos ''repo'') ''repo'')) = 2
   \<and> totalRepos (generateFullReport examplePlatform analysisOffConfig exampleRepos ([''repo''] @ ''empty'' # [])) = 2
   \<and> reposWithCommits (generateFullReport examplePlatform analysisOffConfig exampleRepos ([''repo''] @ ''empty'' # [])) = 1
   \<and> summaryOf (generateFullReport examplePlatform analysisOffConfig exampleRepos ([''repo''] @ ''empty'' # []))
       = emptySummary\<lparr>s_totalCommits := 2\<rparr>
   \<and> summaryOf (generateFullReport examplePlatform analysisOffConfig exampleRepos ([''repo''] @ []))
       = emptySummary\<lparr>s_totalCommits := 2\<rparr>"
  using null_analysis_contribution
    [of examplePlatform analysisOffConfig "exampleRepos ''empty''" "''empty''" exampleRepos
        "[''repo'']" "[]"
        "generateRepoReport examplePlatform analysisOffConfig (exampleRepos ''repo'') ''repo''"
        emptySummary "[''repo'', ''empty'']"]
  unfolding generateFullReport_def generateRepoReport_def Let_def
  by (simp add: report_defs)

end
